theory Spec2Isabelle
  imports Complex_Main
begin

section \<open>The arcade simulation of \<open>game.py\<close>\<close>

text \<open>
  A shallow embedding of \<open>Game.__init__\<close> and \<open>Game.update\<close> with the helpers they
  call. Python floats are modelled as reals (no rounding, no infinities, no NaN), Python
  ints as \<open>int\<close>. The mutable \<open>Game\<close> object becomes a record that \<open>update\<close>
  takes and returns. The process-wide \<open>random\<close> module is a parameter of the model: a
  record of answers indexed by the number of draws made so far, which the game record
  counts in \<open>rnd_n\<close>. A float division is the only operation of the step that can raise,
  so \<open>update\<close> returns \<open>error + game\<close>.
\<close>

subsection \<open>Data\<close>

record star =
  star_x :: real
  star_y :: real
  star_layer :: real

type_synonym rgb = "nat \<times> nat \<times> nat"

definition YELLOW :: rgb where
  "YELLOW = (240, 210, 70)"

definition RED :: rgb where
  "RED = (240, 90, 90)"

record laser =
  l_x :: real
  l_y :: real
  l_vx :: real
  l_vy :: real
  l_color :: rgb
  friendly :: bool
  l_w :: int
  l_h :: int

text \<open>\<open>Laser(x, y, vx, vy, color, friendly)\<close> with the dataclass defaults \<open>w = 14, h = 3\<close>.\<close>

definition Laser :: "real \<Rightarrow> real \<Rightarrow> real \<Rightarrow> real \<Rightarrow> rgb \<Rightarrow> bool \<Rightarrow> laser" where
  "Laser x y vx vy c f =
     \<lparr>l_x = x, l_y = y, l_vx = vx, l_vy = vy, l_color = c, friendly = f, l_w = 14, l_h = 3\<rparr>"

record shard =
  sh_x :: real
  sh_y :: real
  sh_vx :: real
  sh_vy :: real
  ttl :: real
  sh_value :: real

datatype kind = Asteroid | Blob | Red | Snake

text \<open>The per-enemy \<open>data\<close> dict: the four keys the code ever stores, each present or not.\<close>

record edata =
  d_r :: "int option"
  d_shoot_cd :: "real option"
  d_segs :: "(real \<times> real) list option"
  d_phase :: "real option"

definition no_data :: edata where
  "no_data = \<lparr>d_r = None, d_shoot_cd = None, d_segs = None, d_phase = None\<rparr>"

record enemy =
  e_kind :: kind
  e_x :: real
  e_y :: real
  e_vx :: real
  e_vy :: real
  hp :: real
  e_t :: real
  e_data :: edata

text \<open>\<open>Enemy(kind, x, y, vx, vy, hp=..., data=...)\<close> with the default \<open>t = 0.0\<close>.\<close>

definition Enemy :: "kind \<Rightarrow> real \<Rightarrow> real \<Rightarrow> real \<Rightarrow> real \<Rightarrow> real \<Rightarrow> edata \<Rightarrow> enemy" where
  "Enemy k x y vx vy p d =
     \<lparr>e_kind = k, e_x = x, e_y = y, e_vx = vx, e_vy = vy, hp = p, e_t = 0, e_data = d\<rparr>"

record game =
  width :: int
  height :: int
  px :: real
  py :: real
  base_speed :: real
  boost_mul :: real
  energy :: real
  energy_max :: real
  boost_active :: bool
  shield_active :: bool
  shoot_cd :: real
  score :: int
  stars :: "star list"
  bullets :: "laser list"
  ebullets :: "laser list"
  enemies :: "enemy list"
  shards :: "shard list"
  spawn_t :: real
  rnd_n :: nat

datatype error = ZeroDivisionError

subsection \<open>The random source\<close>

text \<open>
  The \<open>random\<close> module is not part of the repository. Each function of it that the game
  calls is a field here; the first argument is the number of draws made before the call.
  \<open>rnd_choices\<close> answers \<open>random.choices(["asteroid", "blob", "red", "snake"], ...)[0]\<close> and
  \<open>rnd_choice\<close> answers \<open>random.choice([0.6, 0.8, 1.0, 1.2, 1.4])\<close>.
\<close>

record rand_src =
  rnd_uniform :: "nat \<Rightarrow> real \<Rightarrow> real \<Rightarrow> real"
  rnd_randint :: "nat \<Rightarrow> int \<Rightarrow> int \<Rightarrow> int"
  rnd_random :: "nat \<Rightarrow> real"
  rnd_choices :: "nat \<Rightarrow> kind"
  rnd_choice :: "nat \<Rightarrow> real"

text \<open>The documented ranges of the module: \<open>uniform(a, b)\<close> and \<open>randint(a, b)\<close> answer
  within \<open>[a, b]\<close> when \<open>a \<le> b\<close>.\<close>

definition rand_ok :: "rand_src \<Rightarrow> bool" where
  "rand_ok R \<longleftrightarrow>
     (\<forall>n a b. a \<le> b \<longrightarrow> a \<le> rnd_uniform R n a b \<and> rnd_uniform R n a b \<le> b) \<and>
     (\<forall>n a b. a \<le> b \<longrightarrow> a \<le> rnd_randint R n a b \<and> rnd_randint R n a b \<le> b)"

text \<open>A source that always answers the lower end, for concrete runs.\<close>

definition low_src :: rand_src where
  "low_src = \<lparr>rnd_uniform = (\<lambda>n a b. a), rnd_randint = (\<lambda>n a b. a),
              rnd_random = (\<lambda>n. 1 / 2), rnd_choices = (\<lambda>n. Asteroid), rnd_choice = (\<lambda>n. 1)\<rparr>"

subsection \<open>Rectangles\<close>

text \<open>
  \<open>pygame.Rect\<close> with integer fields, and \<open>colliderect\<close> as pygame computes it: rectangles
  of zero width or height collide with nothing, and touching edges do not overlap.
\<close>

record rect =
  r_x :: int
  r_y :: int
  r_w :: int
  r_h :: int

definition Rect :: "int \<Rightarrow> int \<Rightarrow> int \<Rightarrow> int \<Rightarrow> rect" where
  "Rect x y w h = \<lparr>r_x = x, r_y = y, r_w = w, r_h = h\<rparr>"

definition colliderect :: "rect \<Rightarrow> rect \<Rightarrow> bool" where
  "colliderect A B \<longleftrightarrow>
     \<not> (r_w A = 0 \<or> r_h A = 0 \<or> r_w B = 0 \<or> r_h B = 0) \<and>
     min (r_x A) (r_x A + r_w A) < max (r_x B) (r_x B + r_w B) \<and>
     min (r_y A) (r_y A + r_h A) < max (r_y B) (r_y B + r_h B) \<and>
     max (r_x A) (r_x A + r_w A) > min (r_x B) (r_x B + r_w B) \<and>
     max (r_y A) (r_y A + r_h A) > min (r_y B) (r_y B + r_h B)"

text \<open>Python's \<open>int(x)\<close> on a float truncates toward zero.\<close>

definition py_int :: "real \<Rightarrow> int" where
  "py_int x = (if 0 \<le> x then \<lfloor>x\<rfloor> else \<lceil>x\<rceil>)"

subsection \<open>Entity methods\<close>

definition laser_update :: "real \<Rightarrow> laser \<Rightarrow> laser" where
  "laser_update dt b = b\<lparr>l_x := l_x b + l_vx b * dt, l_y := l_y b + l_vy b * dt\<rparr>"

definition laser_rect :: "laser \<Rightarrow> rect" where
  "laser_rect b =
     Rect (py_int (l_x b - real_of_int (l_w b) / 2)) (py_int (l_y b - real_of_int (l_h b) / 2))
          (l_w b) (l_h b)"

definition shard_update :: "real \<Rightarrow> shard \<Rightarrow> shard" where
  "shard_update dt s =
     s\<lparr>sh_x := sh_x s + sh_vx s * dt, sh_y := sh_y s + sh_vy s * dt,
       sh_vx := sh_vx s * (1 - 4 / 10 * dt), sh_vy := sh_vy s * (1 - 4 / 10 * dt),
       ttl := ttl s - dt\<rparr>"

definition shard_rect :: "shard \<Rightarrow> rect" where
  "shard_rect s = Rect (py_int (sh_x s - 4)) (py_int (sh_y s - 4)) 8 8"

definition enemy_rect :: "enemy \<Rightarrow> rect" where
  "enemy_rect e =
     (if e_kind e = Red then Rect (py_int (e_x e - 24 / 2)) (py_int (e_y e - 24 / 2)) 24 24
      else let r = (case d_r (e_data e) of None \<Rightarrow> 18 | Some r \<Rightarrow> r)
           in Rect (py_int (e_x e - real_of_int r)) (py_int (e_y e - real_of_int r)) (r * 2) (r * 2))"

subsection \<open>Construction\<close>

text \<open>The comprehension of \<open>__init__\<close>: per star, \<open>x\<close>, \<open>y\<close> and \<open>layer\<close> are drawn in this order.\<close>

primrec init_stars :: "rand_src \<Rightarrow> int \<Rightarrow> int \<Rightarrow> nat \<Rightarrow> nat \<Rightarrow> star list \<times> nat" where
  "init_stars R wd ht 0 n = ([], n)"
| "init_stars R wd ht (Suc k) n =
     (let s = \<lparr>star_x = rnd_uniform R n 0 (real_of_int wd),
               star_y = rnd_uniform R (n + 1) 0 (real_of_int ht),
               star_layer = rnd_choice R (n + 2)\<rparr>;
          (ss, n') = init_stars R wd ht k (n + 3)
      in (s # ss, n'))"

definition init_game :: "rand_src \<Rightarrow> int \<Rightarrow> int \<Rightarrow> game" where
  "init_game R wd ht =
     (let (ss, n) = init_stars R wd ht 140 0
      in \<lparr>width = wd, height = ht,
          px = real_of_int wd * (18 / 100), py = real_of_int ht * (5 / 10),
          base_speed = 220, boost_mul = 2, energy = 60, energy_max = 120,
          boost_active = False, shield_active = False, shoot_cd = 0, score = 0,
          stars = ss, bullets = [], ebullets = [], enemies = [], shards = [],
          spawn_t = 1, rnd_n = n\<rparr>)"

subsection \<open>Spawning helpers\<close>

definition fire_player :: "game \<Rightarrow> game" where
  "fire_player g =
     (let tip_x = px g + 18; tip_y = py g
      in g\<lparr>bullets := bullets g @ [Laser tip_x tip_y 520 0 YELLOW True]\<rparr>)"

definition spawn_enemy :: "rand_src \<Rightarrow> game \<Rightarrow> game" where
  "spawn_enemy R g =
     (let n = rnd_n g;
          y = rnd_uniform R n 40 (real_of_int (height g - 40));
          k = rnd_choices R (n + 1)
      in case k of
           Asteroid \<Rightarrow>
             (let r = rnd_randint R (n + 2) 12 28;
                  speed = rnd_uniform R (n + 3) 80 160
              in g\<lparr>enemies := enemies g @
                     [Enemy Asteroid (real_of_int (width g + 40)) y (- speed) 0
                        (1 + real_of_int r / 10) (no_data\<lparr>d_r := Some r\<rparr>)],
                   rnd_n := n + 4\<rparr>)
         | Blob \<Rightarrow>
             g\<lparr>enemies := enemies g @
                  [Enemy Blob (real_of_int (width g + 40)) y (- 140) 0 3 no_data],
               rnd_n := n + 2\<rparr>
         | Red \<Rightarrow>
             g\<lparr>enemies := enemies g @
                  [Enemy Red (real_of_int (width g + 50)) y (- 120) 0 4
                     (no_data\<lparr>d_shoot_cd := Some (rnd_uniform R (n + 2) (6 / 10) (15 / 10))\<rparr>)],
               rnd_n := n + 3\<rparr>
         | Snake \<Rightarrow>
             (let segs = map (\<lambda>i. (real_of_int (width g + 60 + int i * 16), y)) [0..<8]
              in g\<lparr>enemies := enemies g @
                     [Enemy Snake (real_of_int (width g + 60)) y (- 130) 0 6
                        (no_data\<lparr>d_segs := Some segs,
                                 d_phase := Some (rnd_uniform R (n + 2) 0 (2 * pi))\<rparr>)],
                   rnd_n := n + 3\<rparr>))"

text \<open>The loop of \<open>_enemy_die\<close>: per shard, \<open>ang\<close>, \<open>sp\<close>, \<open>ttl\<close> and \<open>value\<close> are drawn in
  this order.\<close>

primrec mk_shards :: "rand_src \<Rightarrow> enemy \<Rightarrow> nat \<Rightarrow> nat \<Rightarrow> shard list \<times> nat" where
  "mk_shards R e 0 n = ([], n)"
| "mk_shards R e (Suc k) n =
     (let ang = rnd_uniform R n (- (6 / 10)) (6 / 10);
          sp = rnd_uniform R (n + 1) 80 160;
          vx = - sp * cos ang;
          vy = sp * sin ang * (5 / 10);
          s = \<lparr>sh_x = e_x e, sh_y = e_y e, sh_vx = vx, sh_vy = vy,
               ttl = rnd_uniform R (n + 2) 3 6, sh_value = rnd_uniform R (n + 3) 6 12\<rparr>;
          (ss, n') = mk_shards R e k (n + 4)
      in (s # ss, n'))"

definition enemy_die :: "rand_src \<Rightarrow> enemy \<Rightarrow> game \<Rightarrow> game" where
  "enemy_die R e g =
     (let n = rnd_randint R (rnd_n g) 2 5;
          (ss, n') = mk_shards R e (nat n) (rnd_n g + 1)
      in g\<lparr>shards := shards g @ ss, score := score g + 1, rnd_n := n'\<rparr>)"

subsection \<open>The stages of \<open>update\<close>, in source order\<close>

text \<open>Energy drains.\<close>

definition stage_energy :: "real \<Rightarrow> bool \<Rightarrow> bool \<Rightarrow> game \<Rightarrow> game" where
  "stage_energy dt boost shield g =
     (let ba = (boost \<and> energy g > 0);
          sa = (shield \<and> energy g > 0);
          drain0 = 0;
          drain1 = (if ba then drain0 + 20 * dt else drain0);
          drain2 = (if sa then drain1 + 28 * dt else drain1)
      in g\<lparr>boost_active := ba, shield_active := sa,
           energy := max 0 (energy g - drain2)\<rparr>)"

text \<open>Movement.\<close>

definition stage_move :: "real \<Rightarrow> real \<Rightarrow> real \<Rightarrow> game \<Rightarrow> game" where
  "stage_move dt move_dx move_dy g =
     (let speed = base_speed g * (if boost_active g then boost_mul g else 1)
      in g\<lparr>px := max 20 (min (real_of_int (width g - 20)) (px g + move_dx * speed * dt)),
           py := max 20 (min (real_of_int (height g - 20)) (py g + move_dy * speed * dt))\<rparr>)"

text \<open>Shooting.\<close>

definition stage_shoot :: "real \<Rightarrow> bool \<Rightarrow> game \<Rightarrow> game" where
  "stage_shoot dt shoot g =
     (let g1 = g\<lparr>shoot_cd := max 0 (shoot_cd g - dt)\<rparr>
      in if shoot \<and> shoot_cd g1 \<le> 0 then (fire_player g1)\<lparr>shoot_cd := 18 / 100\<rparr> else g1)"

text \<open>Stars: parallax left, respawn at the right edge.\<close>

fun stars_step :: "rand_src \<Rightarrow> int \<Rightarrow> int \<Rightarrow> real \<Rightarrow> real \<Rightarrow> nat \<Rightarrow> star list \<Rightarrow> star list \<times> nat" where
  "stars_step R wd ht par dt n [] = ([], n)"
| "stars_step R wd ht par dt n (s # ss) =
     (let x1 = star_x s - (35 * star_layer s + par * star_layer s) * dt;
          (s', n1) = (if x1 < - 2
                      then (s\<lparr>star_x := real_of_int wd + rnd_uniform R n 0 60,
                              star_y := rnd_uniform R (n + 1) 0 (real_of_int ht)\<rparr>, n + 2)
                      else (s\<lparr>star_x := x1\<rparr>, n));
          (ss', n2) = stars_step R wd ht par dt n1 ss
      in (s' # ss', n2))"

definition stage_stars :: "rand_src \<Rightarrow> real \<Rightarrow> real \<Rightarrow> game \<Rightarrow> game" where
  "stage_stars R dt move_dx g =
     (let par = max 0 move_dx * 60;
          (ss, n) = stars_step R (width g) (height g) par dt (rnd_n g) (stars g)
      in g\<lparr>stars := ss, rnd_n := n\<rparr>)"

text \<open>Bullets: integrate both collections, then cull each with its own margins.\<close>

definition keep_bullet :: "int \<Rightarrow> int \<Rightarrow> laser \<Rightarrow> bool" where
  "keep_bullet wd ht b \<longleftrightarrow>
     - 40 \<le> l_x b \<and> l_x b \<le> real_of_int (wd + 80) \<and> - 40 \<le> l_y b \<and> l_y b \<le> real_of_int (ht + 40)"

definition keep_ebullet :: "int \<Rightarrow> int \<Rightarrow> laser \<Rightarrow> bool" where
  "keep_ebullet wd ht b \<longleftrightarrow>
     - 80 \<le> l_x b \<and> l_x b \<le> real_of_int (wd + 40) \<and> - 40 \<le> l_y b \<and> l_y b \<le> real_of_int (ht + 40)"

definition stage_bullets :: "real \<Rightarrow> game \<Rightarrow> game" where
  "stage_bullets dt g =
     g\<lparr>bullets := filter (keep_bullet (width g) (height g)) (map (laser_update dt) (bullets g)),
       ebullets := filter (keep_ebullet (width g) (height g)) (map (laser_update dt) (ebullets g))\<rparr>"

text \<open>Enemy spawn timer.\<close>

definition stage_spawn :: "rand_src \<Rightarrow> real \<Rightarrow> game \<Rightarrow> game" where
  "stage_spawn R dt g =
     (let g1 = g\<lparr>spawn_t := spawn_t g - dt\<rparr>
      in if spawn_t g1 \<le> 0
         then (let g2 = spawn_enemy R g1
               in g2\<lparr>spawn_t := rnd_uniform R (rnd_n g2) (6 / 10) (12 / 10), rnd_n := rnd_n g2 + 1\<rparr>)
         else g1)"

text \<open>Enemy kinematics. Float division raises on a zero divisor; \<open>math.hypot(dx, dy) or 1.0\<close>
  is the distance, or 1 when the distance is 0.\<close>

definition fdiv :: "real \<Rightarrow> real \<Rightarrow> error + real" where
  "fdiv a b = (if b = 0 then Inl ZeroDivisionError else Inr (a / b))"

definition bind_err :: "error + 'a \<Rightarrow> ('a \<Rightarrow> error + 'b) \<Rightarrow> error + 'b" where
  "bind_err m f = (case m of Inl e \<Rightarrow> Inl e | Inr v \<Rightarrow> f v)"

definition hypot :: "real \<Rightarrow> real \<Rightarrow> real" where
  "hypot dx dy = sqrt (dx * dx + dy * dy)"

definition hypot_or_1 :: "real \<Rightarrow> real \<Rightarrow> real" where
  "hypot_or_1 dx dy = (if hypot dx dy = 0 then 1 else hypot dx dy)"

text \<open>The tail loop of the snake, \<open>for i in range(1, len(segs))\<close>: \<open>prev\<close> is \<open>segs[i - 1]\<close> as
  the previous iteration left it.\<close>

fun chase :: "real \<Rightarrow> real \<times> real \<Rightarrow> (real \<times> real) list \<Rightarrow> error + (real \<times> real) list" where
  "chase dt prev [] = Inr []"
| "chase dt prev (c # cs) =
     (let dx = fst prev - fst c;
          dy = snd prev - snd c;
          dist = hypot_or_1 dx dy;
          step = min (100 * dt) dist
      in bind_err (fdiv dx dist) (\<lambda>qx.
         bind_err (fdiv dy dist) (\<lambda>qy.
           let c' = (fst c + qx * step, snd c + qy * step)
           in bind_err (chase dt c' cs) (\<lambda>cs'. Inr (c' # cs')))))"

text \<open>One iteration of \<open>for e in self.enemies\<close>: the enemy after it, the hostile projectiles
  it appended, and the draw counter.\<close>

definition enemy_step ::
  "rand_src \<Rightarrow> real \<Rightarrow> int \<Rightarrow> real \<Rightarrow> real \<Rightarrow> nat \<Rightarrow> enemy \<Rightarrow> error + (enemy \<times> laser list \<times> nat)" where
  "enemy_step R dt ht ppx ppy n e0 =
     (let e = e0\<lparr>e_t := e_t e0 + dt\<rparr>
      in case e_kind e of
           Asteroid \<Rightarrow> Inr (e\<lparr>e_x := e_x e + e_vx e * dt\<rparr>, [], n)
         | Blob \<Rightarrow>
             (let e1 = e\<lparr>e_x := e_x e + e_vx e * dt\<rparr>;
                  (e2, n2) = (if rnd_random R n < 1 / 10
                              then (e1\<lparr>e_vy := e_vy e1 + rnd_uniform R (n + 1) (- 60) 60\<rparr>, n + 2)
                              else (e1, n + 1));
                  e3 = e2\<lparr>e_vy := e_vy e2 * (1 - 4 / 10 * dt)\<rparr>;
                  e4 = e3\<lparr>e_y := e_y e3 + e_vy e3 * dt\<rparr>;
                  e5 = e4\<lparr>e_y := max 20 (min (real_of_int (ht - 20)) (e_y e4))\<rparr>
              in Inr (e5, [], n2))
         | Red \<Rightarrow>
             (let e1 = e\<lparr>e_x := e_x e + e_vx e * dt\<rparr>;
                  cd = max 0 ((case d_shoot_cd (e_data e1) of None \<Rightarrow> 0 | Some c \<Rightarrow> c) - dt);
                  e2 = e1\<lparr>e_data := (e_data e1)\<lparr>d_shoot_cd := Some cd\<rparr>\<rparr>
              in if cd \<le> 0
                 then (let dx = ppx - e_x e2;
                           dy = ppy - e_y e2;
                           L = hypot_or_1 dx dy;
                           sp = 280
                       in bind_err (fdiv (sp * dx) L) (\<lambda>bvx.
                          bind_err (fdiv (sp * dy) L) (\<lambda>bvy.
                            Inr (e2\<lparr>e_data := (e_data e2)\<lparr>d_shoot_cd := Some (rnd_uniform R n 1 (18 / 10))\<rparr>\<rparr>,
                                 [Laser (e_x e2 - 16) (e_y e2) bvx bvy RED False], n + 1))))
                 else Inr (e2, [], n))
         | Snake \<Rightarrow>
             (let e1 = e\<lparr>e_x := e_x e + e_vx e * dt\<rparr>;
                  segs = (case d_segs (e_data e1) of None \<Rightarrow> [] | Some ss \<Rightarrow> ss);
                  phase = (case d_phase (e_data e1) of None \<Rightarrow> 0 | Some p \<Rightarrow> p) + dt * 2;
                  e2 = e1\<lparr>e_data := (e_data e1)\<lparr>d_phase := Some phase\<rparr>\<rparr>;
                  head_y = e_y e2 + sin (phase + e_x e2 * (2 / 100)) * 40
              in case segs of
                   [] \<Rightarrow> Inr (e2, [], n)
                 | s0 # rest \<Rightarrow>
                     bind_err (chase dt (e_x e2, head_y) rest) (\<lambda>rest'.
                       Inr (e2\<lparr>e_y := head_y,
                               e_data := (e_data e2)\<lparr>d_segs := Some ((e_x e2, head_y) # rest')\<rparr>\<rparr>,
                            [], n))))"

fun enemies_step ::
  "rand_src \<Rightarrow> real \<Rightarrow> int \<Rightarrow> real \<Rightarrow> real \<Rightarrow> nat \<Rightarrow> enemy list \<Rightarrow> error + (enemy list \<times> laser list \<times> nat)" where
  "enemies_step R dt ht ppx ppy n [] = Inr ([], [], n)"
| "enemies_step R dt ht ppx ppy n (e # es) =
     bind_err (enemy_step R dt ht ppx ppy n e) (\<lambda>(e', bs, n1).
     bind_err (enemies_step R dt ht ppx ppy n1 es) (\<lambda>(es', bs', n2).
       Inr (e' # es', bs @ bs', n2)))"

definition stage_enemies :: "rand_src \<Rightarrow> real \<Rightarrow> game \<Rightarrow> error + game" where
  "stage_enemies R dt g =
     bind_err (enemies_step R dt (height g) (px g) (py g) (rnd_n g) (enemies g)) (\<lambda>(es, bs, n).
       Inr (g\<lparr>enemies := es, ebullets := ebullets g @ bs, rnd_n := n\<rparr>))"

text \<open>Cull enemies.\<close>

definition keep_enemy :: "int \<Rightarrow> enemy \<Rightarrow> bool" where
  "keep_enemy ht e \<longleftrightarrow> e_x e > - 80 \<and> - 80 < e_y e \<and> e_y e < real_of_int (ht + 80)"

definition stage_cull :: "game \<Rightarrow> game" where
  "stage_cull g = g\<lparr>enemies := filter (keep_enemy (height g)) (enemies g)\<rparr>"

text \<open>Collisions: player bullets against enemies. \<open>hits b e\<close> is the test of the branch for the
  kind of \<open>e\<close>.\<close>

definition hits :: "laser \<Rightarrow> enemy \<Rightarrow> bool" where
  "hits b e =
     (let dx = l_x b - e_x e; dy = l_y b - e_y e
      in case e_kind e of
           Asteroid \<Rightarrow>
             (let r = (case d_r (e_data e) of None \<Rightarrow> 18 | Some r \<Rightarrow> r)
              in dx * dx + dy * dy \<le> real_of_int ((r + 4) ^ 2))
         | Blob \<Rightarrow> dx * dx + dy * dy \<le> 18 ^ 2
         | Red \<Rightarrow> colliderect (laser_rect b) (enemy_rect e)
         | Snake \<Rightarrow> dx * dx + dy * dy \<le> 16 ^ 2)"

text \<open>The inner loop \<open>for e in self.enemies\<close> with its \<open>break\<close>: \<open>None\<close> when no enemy was hit
  (\<open>hit\<close> stayed false), else the enemies with the first one hit damaged.\<close>

fun hit_first :: "laser \<Rightarrow> enemy list \<Rightarrow> enemy list option" where
  "hit_first b [] = None"
| "hit_first b (e # es) =
     (if hits b e then Some (e\<lparr>hp := hp e - 1\<rparr> # es)
      else map_option ((#) e) (hit_first b es))"

fun bullets_vs_enemies :: "laser list \<Rightarrow> enemy list \<Rightarrow> laser list \<times> enemy list" where
  "bullets_vs_enemies [] es = ([], es)"
| "bullets_vs_enemies (b # bs) es =
     (case hit_first b es of
        None \<Rightarrow> (let (remaining, es') = bullets_vs_enemies bs es in (b # remaining, es'))
      | Some es1 \<Rightarrow> bullets_vs_enemies bs es1)"

definition stage_hits :: "game \<Rightarrow> game" where
  "stage_hits g =
     (let (remaining_bullets, es) = bullets_vs_enemies (bullets g) (enemies g)
      in g\<lparr>bullets := remaining_bullets, enemies := es\<rparr>)"

text \<open>Resolve dead enemies into shards.\<close>

fun resolve_dead :: "rand_src \<Rightarrow> enemy list \<Rightarrow> game \<Rightarrow> enemy list \<times> game" where
  "resolve_dead R [] g = ([], g)"
| "resolve_dead R (e # es) g =
     (if hp e \<le> 0 then resolve_dead R es (enemy_die R e g)
      else (let (alive, g') = resolve_dead R es g in (e # alive, g')))"

definition stage_deaths :: "rand_src \<Rightarrow> game \<Rightarrow> game" where
  "stage_deaths R g =
     (let (alive, g') = resolve_dead R (enemies g) g in g'\<lparr>enemies := alive\<rparr>)"

text \<open>Enemy bullets against the player.\<close>

definition prect :: "game \<Rightarrow> rect" where
  "prect g = Rect (py_int (px g - 12)) (py_int (py g - 10)) 24 20"

fun ebullets_vs_player :: "rect \<Rightarrow> bool \<Rightarrow> laser list \<Rightarrow> real \<Rightarrow> laser list \<times> real" where
  "ebullets_vs_player pr sa [] en = ([], en)"
| "ebullets_vs_player pr sa (b # bs) en =
     (if colliderect (laser_rect b) pr
      then (if sa then ebullets_vs_player pr sa bs en
            else ebullets_vs_player pr sa bs (max 0 (en - 12)))
      else (let (keep_e, en') = ebullets_vs_player pr sa bs en in (b # keep_e, en')))"

definition stage_ebullets :: "game \<Rightarrow> game" where
  "stage_ebullets g =
     (let (keep_e, en) = ebullets_vs_player (prect g) (shield_active g) (ebullets g) (energy g)
      in g\<lparr>ebullets := keep_e, energy := en\<rparr>)"

text \<open>Shards: update and collect.\<close>

fun shards_collect :: "rect \<Rightarrow> real \<Rightarrow> real \<Rightarrow> shard list \<Rightarrow> real \<Rightarrow> shard list \<times> real" where
  "shards_collect pr emax dt [] en = ([], en)"
| "shards_collect pr emax dt (s0 # ss) en =
     (let s = shard_update dt s0
      in if ttl s \<le> 0 then shards_collect pr emax dt ss en
         else if colliderect pr (shard_rect s)
         then shards_collect pr emax dt ss (min emax (en + sh_value s))
         else (let (new_shards, en') = shards_collect pr emax dt ss en in (s # new_shards, en')))"

definition stage_shards :: "real \<Rightarrow> game \<Rightarrow> game" where
  "stage_shards dt g =
     (let (new_shards, en) = shards_collect (prect g) (energy_max g) dt (shards g) (energy g)
      in g\<lparr>shards := new_shards, energy := en\<rparr>)"

subsection \<open>\<open>Game.update\<close>\<close>

text \<open>The state before the enemy loop, where the only divisions of the step are.\<close>

definition before_enemies :: "rand_src \<Rightarrow> real \<Rightarrow> real \<Rightarrow> real \<Rightarrow> bool \<Rightarrow> bool \<Rightarrow> bool \<Rightarrow> game \<Rightarrow> game" where
  "before_enemies R dt move_dx move_dy shoot boost shield g =
     stage_spawn R dt (stage_bullets dt (stage_stars R dt move_dx
       (stage_shoot dt shoot (stage_move dt move_dx move_dy (stage_energy dt boost shield g)))))"

definition after_enemies :: "rand_src \<Rightarrow> real \<Rightarrow> game \<Rightarrow> game" where
  "after_enemies R dt g =
     stage_shards dt (stage_ebullets (stage_deaths R (stage_hits (stage_cull g))))"

definition update :: "rand_src \<Rightarrow> real \<Rightarrow> real \<Rightarrow> real \<Rightarrow> bool \<Rightarrow> bool \<Rightarrow> bool \<Rightarrow> game \<Rightarrow> error + game" where
  "update R dt move_dx move_dy shoot boost shield g =
     bind_err (stage_enemies R dt (before_enemies R dt move_dx move_dy shoot boost shield g))
       (\<lambda>g'. Inr (after_enemies R dt g'))"

subsection \<open>The host loop and observation points\<close>

text \<open>One iteration of the loop of \<open>main\<close> calls \<open>game.update(dt, mx, my, shoot, boost, shield)\<close>
  once; a \<open>frame\<close> is the argument tuple of that call.\<close>

record frame =
  f_dt :: real
  f_dx :: real
  f_dy :: real
  f_shoot :: bool
  f_boost :: bool
  f_shield :: bool

text \<open>The caller's contract: positive elapsed time, both movement components in \<open>[-1, 1]\<close>.\<close>

definition in_range :: "frame \<Rightarrow> bool" where
  "in_range f \<longleftrightarrow> 0 < f_dt f \<and> - 1 \<le> f_dx f \<and> f_dx f \<le> 1 \<and> - 1 \<le> f_dy f \<and> f_dy f \<le> 1"

fun run_frames :: "rand_src \<Rightarrow> game \<Rightarrow> frame list \<Rightarrow> error + game" where
  "run_frames R g [] = Inr g"
| "run_frames R g (f # fs) =
     bind_err (update R (f_dt f) (f_dx f) (f_dy f) (f_shoot f) (f_boost f) (f_shield f) g)
       (\<lambda>g'. run_frames R g' fs)"

text \<open>The state of one \<open>update\<close> call after each of its later stages: after the enemy cull,
  after the bullet-enemy collisions, after the death resolution, and after the collisions of
  hostile projectiles with the player. \<open>update\<close> is the last of them followed by the shard
  stage (lemma \<open>update_upto\<close>).\<close>

definition upto_cull :: "rand_src \<Rightarrow> real \<Rightarrow> real \<Rightarrow> real \<Rightarrow> bool \<Rightarrow> bool \<Rightarrow> bool \<Rightarrow> game \<Rightarrow> error + game" where
  "upto_cull R dt move_dx move_dy shoot boost shield g =
     bind_err (stage_enemies R dt (before_enemies R dt move_dx move_dy shoot boost shield g))
       (\<lambda>g'. Inr (stage_cull g'))"

definition upto_hits :: "rand_src \<Rightarrow> real \<Rightarrow> real \<Rightarrow> real \<Rightarrow> bool \<Rightarrow> bool \<Rightarrow> bool \<Rightarrow> game \<Rightarrow> error + game" where
  "upto_hits R dt move_dx move_dy shoot boost shield g =
     bind_err (upto_cull R dt move_dx move_dy shoot boost shield g) (\<lambda>g'. Inr (stage_hits g'))"

definition upto_deaths :: "rand_src \<Rightarrow> real \<Rightarrow> real \<Rightarrow> real \<Rightarrow> bool \<Rightarrow> bool \<Rightarrow> bool \<Rightarrow> game \<Rightarrow> error + game" where
  "upto_deaths R dt move_dx move_dy shoot boost shield g =
     bind_err (upto_hits R dt move_dx move_dy shoot boost shield g) (\<lambda>g'. Inr (stage_deaths R g'))"

definition upto_ebullets :: "rand_src \<Rightarrow> real \<Rightarrow> real \<Rightarrow> real \<Rightarrow> bool \<Rightarrow> bool \<Rightarrow> bool \<Rightarrow> game \<Rightarrow> error + game" where
  "upto_ebullets R dt move_dx move_dy shoot boost shield g =
     bind_err (upto_deaths R dt move_dx move_dy shoot boost shield g) (\<lambda>g'. Inr (stage_ebullets g'))"

text \<open>The hostile projectiles that red enemies append during one call, in firing order.\<close>

definition fired_now :: "rand_src \<Rightarrow> real \<Rightarrow> real \<Rightarrow> real \<Rightarrow> bool \<Rightarrow> bool \<Rightarrow> bool \<Rightarrow> game \<Rightarrow> laser list" where
  "fired_now R dt move_dx move_dy shoot boost shield g =
     (let g6 = before_enemies R dt move_dx move_dy shoot boost shield g
      in case enemies_step R dt (height g6) (px g6) (py g6) (rnd_n g6) (enemies g6) of
           Inl e \<Rightarrow> []
         | Inr (es, bs, n) \<Rightarrow> bs)"

subsection \<open>Auxiliary notions for the statements\<close>

text \<open>The damage of one unshielded hit, \<open>max(0.0, self.energy - 12.0)\<close>.\<close>

definition hit_damage :: "real \<Rightarrow> real" where
  "hit_damage en = max 0 (en - 12)"

definition overlaps_player :: "game \<Rightarrow> laser \<Rightarrow> bool" where
  "overlaps_player g b \<longleftrightarrow> colliderect (laser_rect b) (prect g)"

definition dead :: "enemy \<Rightarrow> bool" where
  "dead e \<longleftrightarrow> hp e \<le> 0"

text \<open>What \<open>_enemy_die\<close> promises of the shards of one enemy: 2 to 5 of them, each at the
  enemy's position, with \<open>ttl\<close> in \<open>[3, 6]\<close> and \<open>value\<close> in \<open>[6, 12]\<close>.\<close>

definition shard_of :: "enemy \<Rightarrow> shard \<Rightarrow> bool" where
  "shard_of e s \<longleftrightarrow>
     sh_x s = e_x e \<and> sh_y s = e_y e \<and> 3 \<le> ttl s \<and> ttl s \<le> 6 \<and> 6 \<le> sh_value s \<and> sh_value s \<le> 12"

definition shards_of :: "enemy \<Rightarrow> shard list \<Rightarrow> bool" where
  "shards_of e ss \<longleftrightarrow> 2 \<le> length ss \<and> length ss \<le> 5 \<and> list_all (shard_of e) ss"

text \<open>The shards of all dead enemies of a list, one group per dead enemy in list order, with
  the draw counter threaded as \<open>resolve_dead\<close> threads it.\<close>

fun dead_shards :: "rand_src \<Rightarrow> enemy list \<Rightarrow> nat \<Rightarrow> shard list list \<times> nat" where
  "dead_shards R [] n = ([], n)"
| "dead_shards R (e # es) n =
     (if hp e \<le> 0
      then (let (ss, n1) = mk_shards R e (nat (rnd_randint R n 2 5)) (n + 1);
                (rest, n2) = dead_shards R es n1
            in (ss # rest, n2))
      else dead_shards R es n)"

definition in_box :: "game \<Rightarrow> bool" where
  "in_box g \<longleftrightarrow>
     20 \<le> px g \<and> px g \<le> real_of_int (width g - 20) \<and>
     20 \<le> py g \<and> py g \<le> real_of_int (height g - 20)"

text \<open>The invariant behind the energy bounds: the energy is within its bounds and no shard
  carries a negative value.\<close>

definition energy_inv :: "game \<Rightarrow> bool" where
  "energy_inv g \<longleftrightarrow>
     0 \<le> energy g \<and> energy g \<le> energy_max g \<and> list_all (\<lambda>s. 0 \<le> sh_value s) (shards g)"

text \<open>A frame for concrete runs: boost and shield held, moving right, shooting.\<close>

definition frame0 :: frame where
  "frame0 = \<lparr>f_dt = 1 / 60, f_dx = 1, f_dy = 0, f_shoot = True, f_boost = True, f_shield = True\<rparr>"

subsection \<open>Concrete states for runs\<close>

text \<open>A state of an 800 by 600 playfield with the player at (100, 300) and two hostile
  projectiles: one that overlaps the player's hitbox after one sixtieth of a second, one far
  away. \<open>g_low\<close> and \<open>g_zero\<close> are the same state with energy 0.1 and 0.\<close>

definition g_hit :: game where
  "g_hit = \<lparr>width = 800, height = 600, px = 100, py = 300, base_speed = 220, boost_mul = 2,
            energy = 50, energy_max = 120, boost_active = False, shield_active = False,
            shoot_cd = 0, score = 0, stars = [], bullets = [],
            ebullets = [Laser 110 300 (- 280) 0 RED False, Laser 400 300 (- 280) 0 RED False],
            enemies = [], shards = [], spawn_t = 1, rnd_n = 0\<rparr>"

definition g_low :: game where
  "g_low = g_hit\<lparr>energy := 1 / 10\<rparr>"

definition g_zero :: game where
  "g_zero = g_hit\<lparr>energy := 0\<rparr>"

text \<open>A state with one friendly projectile about to overlap two enemies at once: an asteroid
  of radius 20 with one hitpoint left, listed first, and a blob behind it.\<close>

definition g_kill :: game where
  "g_kill = \<lparr>width = 800, height = 600, px = 100, py = 300, base_speed = 220, boost_mul = 2,
             energy = 50, energy_max = 120, boost_active = False, shield_active = False,
             shoot_cd = 0, score = 0, stars = [],
             bullets = [Laser 495 300 520 0 YELLOW True], ebullets = [],
             enemies = [Enemy Asteroid 500 300 (- 120) 0 1 (no_data\<lparr>d_r := Some 20\<rparr>),
                        Enemy Blob 510 300 (- 120) 0 3 no_data],
             shards = [], spawn_t = 1, rnd_n = 0\<rparr>"

text \<open>A state with a red enemy 10 pixels from the left cull line whose shoot cooldown is
  about to expire, two friendly projectiles at \<open>x = width + 100\<close> and \<open>x = width + 50\<close>, and
  two hostile ones. And a state with a friendly projectile at \<open>x = width + 50\<close> next to an
  asteroid at its spawn column \<open>width + 40\<close>.\<close>

definition g_edge :: game where
  "g_edge = \<lparr>width = 800, height = 600, px = 100, py = 300, base_speed = 220, boost_mul = 2,
             energy = 50, energy_max = 120, boost_active = False, shield_active = False,
             shoot_cd = 0, score = 0, stars = [],
             bullets = [Laser 900 300 520 0 YELLOW True, Laser 850 300 520 0 YELLOW True],
             ebullets = [Laser (- 79) 300 (- 280) 0 RED False, Laser 400 300 (- 280) 0 RED False],
             enemies = [Enemy Red (- 70) 300 (- 120) 0 4 (no_data\<lparr>d_shoot_cd := Some (1 / 100)\<rparr>)],
             shards = [], spawn_t = 1, rnd_n = 0\<rparr>"

definition g_far :: game where
  "g_far = \<lparr>width = 800, height = 600, px = 100, py = 300, base_speed = 220, boost_mul = 2,
            energy = 50, energy_max = 120, boost_active = False, shield_active = False,
            shoot_cd = 0, score = 0, stars = [],
            bullets = [Laser 850 300 520 0 YELLOW True], ebullets = [],
            enemies = [Enemy Asteroid 840 300 (- 120) 0 3 (no_data\<lparr>d_r := Some 20\<rparr>)],
            shards = [], spawn_t = 1, rnd_n = 0\<rparr>"

subsection \<open>The single-hit rule in the spec's words\<close>

text \<open>The index of the first enemy of the collection, in collection order, whose hitbox the
  projectile matches; and the number of projectiles of a list whose first match is the
  enemy at index \<open>i\<close>.\<close>

fun first_match :: "laser \<Rightarrow> enemy list \<Rightarrow> nat option" where
  "first_match b [] = None"
| "first_match b (e # es) = (if hits b e then Some 0 else map_option Suc (first_match b es))"

definition damage_at :: "laser list \<Rightarrow> enemy list \<Rightarrow> nat \<Rightarrow> nat" where
  "damage_at bs es i = length (filter (\<lambda>b. first_match b es = Some i) bs)"

section \<open>Properties\<close>

subsection \<open>No division of the step has a zero divisor\<close>

lemma hypot_or_1_nonzero: "hypot_or_1 dx dy \<noteq> 0"
  by (simp add: hypot_or_1_def)

lemma fdiv_hypot_or_1: "fdiv a (hypot_or_1 dx dy) = Inr (a / hypot_or_1 dx dy)"
  by (simp add: fdiv_def hypot_or_1_nonzero)

lemma chase_total: "\<exists>cs'. chase dt prev cs = Inr cs'"
proof (induction cs arbitrary: prev)
  case Nil
  show ?case by simp
next
  case (Cons c cs)
  let ?dx = "fst prev - fst c" and ?dy = "snd prev - snd c"
  let ?d = "hypot_or_1 ?dx ?dy"
  let ?c' = "(fst c + ?dx / ?d * min (100 * dt) ?d, snd c + ?dy / ?d * min (100 * dt) ?d)"
  from Cons.IH [of ?c'] obtain cs' where "chase dt ?c' cs = Inr cs'" ..
  then show ?case
    by (simp add: Let_def fdiv_hypot_or_1 bind_err_def)
qed

lemma enemy_step_total: "\<exists>r. enemy_step R dt ht ppx ppy n e = Inr r"
proof (cases "e_kind e")
  case Asteroid
  then show ?thesis by (simp add: enemy_step_def)
next
  case Blob
  then show ?thesis by (simp add: enemy_step_def Let_def split_beta)
next
  case Red
  then show ?thesis by (simp add: enemy_step_def Let_def fdiv_hypot_or_1 bind_err_def)
next
  case Snake
  show ?thesis
  proof (cases "case d_segs (e_data e) of None \<Rightarrow> [] | Some ss \<Rightarrow> ss")
    case Nil
    with Snake show ?thesis by (simp add: enemy_step_def Let_def)
  next
    case (Cons s0 rest)
    obtain rest' where "chase dt (e_x e + e_vx e * dt,
        e_y e + sin ((case d_phase (e_data e) of None \<Rightarrow> 0 | Some p \<Rightarrow> p) + dt * 2
                     + (e_x e + e_vx e * dt) * (2 / 100)) * 40) rest = Inr rest'"
      using chase_total by blast
    with Snake Cons show ?thesis by (simp add: enemy_step_def Let_def bind_err_def)
  qed
qed

lemma enemies_step_total: "\<exists>es' bs n'. enemies_step R dt ht ppx ppy n es = Inr (es', bs, n')"
proof (induction es arbitrary: n)
  case Nil
  show ?case by simp
next
  case (Cons e es)
  obtain e' bs n1 where s: "enemy_step R dt ht ppx ppy n e = Inr (e', bs, n1)"
    using enemy_step_total [of R dt ht ppx ppy n e] by (metis prod_cases3)
  obtain es' bs' n2 where "enemies_step R dt ht ppx ppy n1 es = Inr (es', bs', n2)"
    using Cons.IH [of n1] by blast
  with s show ?case by (simp add: bind_err_def)
qed

lemma stage_enemies_result:
  obtains es bs n where
    "enemies_step R dt (height g) (px g) (py g) (rnd_n g) (enemies g) = Inr (es, bs, n)"
    "stage_enemies R dt g = Inr (g\<lparr>enemies := es, ebullets := ebullets g @ bs, rnd_n := n\<rparr>)"
proof -
  obtain es bs n where
    s: "enemies_step R dt (height g) (px g) (py g) (rnd_n g) (enemies g) = Inr (es, bs, n)"
    using enemies_step_total by blast
  then have "stage_enemies R dt g = Inr (g\<lparr>enemies := es, ebullets := ebullets g @ bs, rnd_n := n\<rparr>)"
    by (simp add: stage_enemies_def bind_err_def)
  with s show thesis using that by blast
qed

lemma update_upto:
  "update R dt move_dx move_dy shoot boost shield g =
     bind_err (upto_ebullets R dt move_dx move_dy shoot boost shield g)
       (\<lambda>g'. Inr (stage_shards dt g'))"
  by (simp add: update_def upto_ebullets_def upto_deaths_def upto_hits_def upto_cull_def
      after_enemies_def bind_err_def split: sum.splits)

text \<open>Every call runs through all the stages: the enemy loop returns, and each observation
  point and the call itself are the later stages applied to its result.\<close>

lemma update_stages:
  obtains es bs n g7 where
    "enemies_step R dt (height (before_enemies R dt mdx mdy sh bo sd g))
       (px (before_enemies R dt mdx mdy sh bo sd g)) (py (before_enemies R dt mdx mdy sh bo sd g))
       (rnd_n (before_enemies R dt mdx mdy sh bo sd g))
       (enemies (before_enemies R dt mdx mdy sh bo sd g)) = Inr (es, bs, n)"
    "g7 = (before_enemies R dt mdx mdy sh bo sd g)
            \<lparr>enemies := es, ebullets := ebullets (before_enemies R dt mdx mdy sh bo sd g) @ bs,
             rnd_n := n\<rparr>"
    "fired_now R dt mdx mdy sh bo sd g = bs"
    "upto_cull R dt mdx mdy sh bo sd g = Inr (stage_cull g7)"
    "upto_hits R dt mdx mdy sh bo sd g = Inr (stage_hits (stage_cull g7))"
    "upto_deaths R dt mdx mdy sh bo sd g = Inr (stage_deaths R (stage_hits (stage_cull g7)))"
    "upto_ebullets R dt mdx mdy sh bo sd g =
       Inr (stage_ebullets (stage_deaths R (stage_hits (stage_cull g7))))"
    "update R dt mdx mdy sh bo sd g =
       Inr (stage_shards dt (stage_ebullets (stage_deaths R (stage_hits (stage_cull g7)))))"
proof -
  let ?g6 = "before_enemies R dt mdx mdy sh bo sd g"
  obtain es bs n where
    s: "enemies_step R dt (height ?g6) (px ?g6) (py ?g6) (rnd_n ?g6) (enemies ?g6) = Inr (es, bs, n)"
    and e: "stage_enemies R dt ?g6 = Inr (?g6\<lparr>enemies := es, ebullets := ebullets ?g6 @ bs, rnd_n := n\<rparr>)"
    by (rule stage_enemies_result)
  let ?g7 = "?g6\<lparr>enemies := es, ebullets := ebullets ?g6 @ bs, rnd_n := n\<rparr>"
  have f: "fired_now R dt mdx mdy sh bo sd g = bs"
    using s by (simp add: fired_now_def Let_def)
  have c: "upto_cull R dt mdx mdy sh bo sd g = Inr (stage_cull ?g7)"
    using e by (simp add: upto_cull_def bind_err_def)
  then have h: "upto_hits R dt mdx mdy sh bo sd g = Inr (stage_hits (stage_cull ?g7))"
    by (simp add: upto_hits_def bind_err_def)
  then have d: "upto_deaths R dt mdx mdy sh bo sd g = Inr (stage_deaths R (stage_hits (stage_cull ?g7)))"
    by (simp add: upto_deaths_def bind_err_def)
  then have b: "upto_ebullets R dt mdx mdy sh bo sd g =
      Inr (stage_ebullets (stage_deaths R (stage_hits (stage_cull ?g7))))"
    by (simp add: upto_ebullets_def bind_err_def)
  then have u: "update R dt mdx mdy sh bo sd g =
      Inr (stage_shards dt (stage_ebullets (stage_deaths R (stage_hits (stage_cull ?g7)))))"
    by (simp add: update_upto bind_err_def)
  show thesis
    using that [OF s refl f c h d b u] .
qed

subsection \<open>What each early stage writes\<close>

lemma stars_step_length: "length (fst (stars_step R wd ht par dt n ss)) = length ss"
  by (induction ss arbitrary: n) (simp_all add: Let_def split_beta)

lemma init_stars_length: "length (fst (init_stars R wd ht k n)) = k"
  by (induction k arbitrary: n) (simp_all add: Let_def split_beta)

lemma spawn_enemy_fields:
  "width (spawn_enemy R g) = width g" "height (spawn_enemy R g) = height g"
  "px (spawn_enemy R g) = px g" "py (spawn_enemy R g) = py g"
  "base_speed (spawn_enemy R g) = base_speed g" "boost_mul (spawn_enemy R g) = boost_mul g"
  "energy (spawn_enemy R g) = energy g" "energy_max (spawn_enemy R g) = energy_max g"
  "boost_active (spawn_enemy R g) = boost_active g" "shield_active (spawn_enemy R g) = shield_active g"
  "shoot_cd (spawn_enemy R g) = shoot_cd g" "score (spawn_enemy R g) = score g"
  "stars (spawn_enemy R g) = stars g" "bullets (spawn_enemy R g) = bullets g"
  "ebullets (spawn_enemy R g) = ebullets g" "shards (spawn_enemy R g) = shards g"
  "spawn_t (spawn_enemy R g) = spawn_t g"
  by (simp_all add: spawn_enemy_def Let_def split: kind.splits)

lemma stage_spawn_fields:
  "width (stage_spawn R dt g) = width g" "height (stage_spawn R dt g) = height g"
  "px (stage_spawn R dt g) = px g" "py (stage_spawn R dt g) = py g"
  "base_speed (stage_spawn R dt g) = base_speed g" "boost_mul (stage_spawn R dt g) = boost_mul g"
  "energy (stage_spawn R dt g) = energy g" "energy_max (stage_spawn R dt g) = energy_max g"
  "boost_active (stage_spawn R dt g) = boost_active g" "shield_active (stage_spawn R dt g) = shield_active g"
  "shoot_cd (stage_spawn R dt g) = shoot_cd g" "score (stage_spawn R dt g) = score g"
  "stars (stage_spawn R dt g) = stars g" "bullets (stage_spawn R dt g) = bullets g"
  "ebullets (stage_spawn R dt g) = ebullets g" "shards (stage_spawn R dt g) = shards g"
  by (simp_all add: stage_spawn_def Let_def spawn_enemy_fields)

lemma stage_bullets_fields:
  "width (stage_bullets dt g) = width g" "height (stage_bullets dt g) = height g"
  "px (stage_bullets dt g) = px g" "py (stage_bullets dt g) = py g"
  "base_speed (stage_bullets dt g) = base_speed g" "boost_mul (stage_bullets dt g) = boost_mul g"
  "energy (stage_bullets dt g) = energy g" "energy_max (stage_bullets dt g) = energy_max g"
  "boost_active (stage_bullets dt g) = boost_active g" "shield_active (stage_bullets dt g) = shield_active g"
  "shoot_cd (stage_bullets dt g) = shoot_cd g" "score (stage_bullets dt g) = score g"
  "stars (stage_bullets dt g) = stars g" "enemies (stage_bullets dt g) = enemies g"
  "shards (stage_bullets dt g) = shards g" "spawn_t (stage_bullets dt g) = spawn_t g"
  "rnd_n (stage_bullets dt g) = rnd_n g"
  "bullets (stage_bullets dt g) = filter (keep_bullet (width g) (height g)) (map (laser_update dt) (bullets g))"
  "ebullets (stage_bullets dt g) = filter (keep_ebullet (width g) (height g)) (map (laser_update dt) (ebullets g))"
  by (simp_all add: stage_bullets_def)

lemma stage_stars_fields:
  "width (stage_stars R dt mdx g) = width g" "height (stage_stars R dt mdx g) = height g"
  "px (stage_stars R dt mdx g) = px g" "py (stage_stars R dt mdx g) = py g"
  "base_speed (stage_stars R dt mdx g) = base_speed g" "boost_mul (stage_stars R dt mdx g) = boost_mul g"
  "energy (stage_stars R dt mdx g) = energy g" "energy_max (stage_stars R dt mdx g) = energy_max g"
  "boost_active (stage_stars R dt mdx g) = boost_active g" "shield_active (stage_stars R dt mdx g) = shield_active g"
  "shoot_cd (stage_stars R dt mdx g) = shoot_cd g" "score (stage_stars R dt mdx g) = score g"
  "bullets (stage_stars R dt mdx g) = bullets g" "ebullets (stage_stars R dt mdx g) = ebullets g"
  "enemies (stage_stars R dt mdx g) = enemies g"
  "shards (stage_stars R dt mdx g) = shards g" "spawn_t (stage_stars R dt mdx g) = spawn_t g"
  by (simp_all add: stage_stars_def Let_def split_beta)

lemma stage_stars_length: "length (stars (stage_stars R dt mdx g)) = length (stars g)"
  using stars_step_length [of R "width g" "height g" "max 0 mdx * 60" dt "rnd_n g" "stars g"]
  by (simp add: stage_stars_def Let_def split_beta)

lemma stage_shoot_fields:
  "width (stage_shoot dt sh g) = width g" "height (stage_shoot dt sh g) = height g"
  "px (stage_shoot dt sh g) = px g" "py (stage_shoot dt sh g) = py g"
  "base_speed (stage_shoot dt sh g) = base_speed g" "boost_mul (stage_shoot dt sh g) = boost_mul g"
  "energy (stage_shoot dt sh g) = energy g" "energy_max (stage_shoot dt sh g) = energy_max g"
  "boost_active (stage_shoot dt sh g) = boost_active g" "shield_active (stage_shoot dt sh g) = shield_active g"
  "score (stage_shoot dt sh g) = score g"
  "stars (stage_shoot dt sh g) = stars g" "ebullets (stage_shoot dt sh g) = ebullets g"
  "enemies (stage_shoot dt sh g) = enemies g"
  "shards (stage_shoot dt sh g) = shards g" "spawn_t (stage_shoot dt sh g) = spawn_t g"
  "rnd_n (stage_shoot dt sh g) = rnd_n g"
  by (simp_all add: stage_shoot_def fire_player_def Let_def)

lemma stage_move_fields:
  "width (stage_move dt mdx mdy g) = width g" "height (stage_move dt mdx mdy g) = height g"
  "base_speed (stage_move dt mdx mdy g) = base_speed g" "boost_mul (stage_move dt mdx mdy g) = boost_mul g"
  "energy (stage_move dt mdx mdy g) = energy g" "energy_max (stage_move dt mdx mdy g) = energy_max g"
  "boost_active (stage_move dt mdx mdy g) = boost_active g" "shield_active (stage_move dt mdx mdy g) = shield_active g"
  "shoot_cd (stage_move dt mdx mdy g) = shoot_cd g" "score (stage_move dt mdx mdy g) = score g"
  "stars (stage_move dt mdx mdy g) = stars g" "bullets (stage_move dt mdx mdy g) = bullets g"
  "ebullets (stage_move dt mdx mdy g) = ebullets g" "enemies (stage_move dt mdx mdy g) = enemies g"
  "shards (stage_move dt mdx mdy g) = shards g" "spawn_t (stage_move dt mdx mdy g) = spawn_t g"
  "rnd_n (stage_move dt mdx mdy g) = rnd_n g"
  by (simp_all add: stage_move_def Let_def)

lemma stage_move_pos:
  "px (stage_move dt mdx mdy g) =
     max 20 (min (real_of_int (width g - 20)) (px g + mdx * (base_speed g * (if boost_active g then boost_mul g else 1)) * dt))"
  "py (stage_move dt mdx mdy g) =
     max 20 (min (real_of_int (height g - 20)) (py g + mdy * (base_speed g * (if boost_active g then boost_mul g else 1)) * dt))"
  by (simp_all add: stage_move_def Let_def)

lemma stage_energy_fields:
  "width (stage_energy dt bo sh g) = width g" "height (stage_energy dt bo sh g) = height g"
  "px (stage_energy dt bo sh g) = px g" "py (stage_energy dt bo sh g) = py g"
  "base_speed (stage_energy dt bo sh g) = base_speed g" "boost_mul (stage_energy dt bo sh g) = boost_mul g"
  "energy_max (stage_energy dt bo sh g) = energy_max g"
  "shoot_cd (stage_energy dt bo sh g) = shoot_cd g" "score (stage_energy dt bo sh g) = score g"
  "stars (stage_energy dt bo sh g) = stars g" "bullets (stage_energy dt bo sh g) = bullets g"
  "ebullets (stage_energy dt bo sh g) = ebullets g" "enemies (stage_energy dt bo sh g) = enemies g"
  "shards (stage_energy dt bo sh g) = shards g" "spawn_t (stage_energy dt bo sh g) = spawn_t g"
  "rnd_n (stage_energy dt bo sh g) = rnd_n g"
  "boost_active (stage_energy dt bo sh g) = (bo \<and> 0 < energy g)"
  "shield_active (stage_energy dt bo sh g) = (sh \<and> 0 < energy g)"
  by (simp_all add: stage_energy_def Let_def)

lemma stage_energy_energy:
  "energy (stage_energy dt bo sh g) =
     max 0 (energy g - ((if bo \<and> 0 < energy g then 20 * dt else 0) + (if sh \<and> 0 < energy g then 28 * dt else 0)))"
  by (simp add: stage_energy_def Let_def)

lemmas early_fields = stage_spawn_fields stage_bullets_fields stage_stars_fields stage_shoot_fields
  stage_move_fields stage_energy_fields

lemma before_enemies_fields:
  "width (before_enemies R dt mdx mdy s bo sh g) = width g"
  "height (before_enemies R dt mdx mdy s bo sh g) = height g"
  "base_speed (before_enemies R dt mdx mdy s bo sh g) = base_speed g"
  "boost_mul (before_enemies R dt mdx mdy s bo sh g) = boost_mul g"
  "energy_max (before_enemies R dt mdx mdy s bo sh g) = energy_max g"
  "score (before_enemies R dt mdx mdy s bo sh g) = score g"
  "shards (before_enemies R dt mdx mdy s bo sh g) = shards g"
  "boost_active (before_enemies R dt mdx mdy s bo sh g) = (bo \<and> 0 < energy g)"
  "shield_active (before_enemies R dt mdx mdy s bo sh g) = (sh \<and> 0 < energy g)"
  "length (stars (before_enemies R dt mdx mdy s bo sh g)) = length (stars g)"
  "energy (before_enemies R dt mdx mdy s bo sh g) = energy (stage_energy dt bo sh g)"
  "px (before_enemies R dt mdx mdy s bo sh g) = px (stage_move dt mdx mdy (stage_energy dt bo sh g))"
  "py (before_enemies R dt mdx mdy s bo sh g) = py (stage_move dt mdx mdy (stage_energy dt bo sh g))"
  "ebullets (before_enemies R dt mdx mdy s bo sh g) =
     filter (keep_ebullet (width g) (height g)) (map (laser_update dt) (ebullets g))"
  by (simp_all add: before_enemies_def early_fields stage_stars_length)

subsection \<open>The collision loops in closed form\<close>

lemma hits_hp: "hits b (e\<lparr>hp := v\<rparr>) = hits b e"
  by (simp add: hits_def enemy_rect_def Let_def split: kind.splits)

lemma hit_first_None: "hit_first b es = None \<longleftrightarrow> (\<forall>e\<in>set es. \<not> hits b e)"
  by (induction es) auto

lemma hit_first_at:
  "\<forall>x\<in>set pre. \<not> hits b x \<Longrightarrow> hits b e \<Longrightarrow>
   hit_first b (pre @ e # post) = Some (pre @ e\<lparr>hp := hp e - 1\<rparr> # post)"
  by (induction pre) auto

lemma hit_first_hits:
  "hit_first b es = Some es' \<Longrightarrow> (\<exists>e\<in>set es'. hits c e) = (\<exists>e\<in>set es. hits c e)"
proof (induction es arbitrary: es')
  case Nil
  then show ?case by simp
next
  case (Cons e es)
  show ?case
  proof (cases "hits b e")
    case True
    with Cons.prems show ?thesis by (auto simp: hits_hp)
  next
    case False
    with Cons.prems obtain r where r: "hit_first b es = Some r" and es': "es' = e # r"
      by auto
    from Cons.IH [OF r] es' show ?thesis by simp
  qed
qed

lemma hit_first_sum_hp:
  "hit_first b es = Some es' \<Longrightarrow> sum_list (map hp es') = sum_list (map hp es) - 1"
proof (induction es arbitrary: es')
  case Nil
  then show ?case by simp
next
  case (Cons e es)
  show ?case
  proof (cases "hits b e")
    case True
    with Cons.prems show ?thesis by auto
  next
    case False
    with Cons.prems obtain r where r: "hit_first b es = Some r" and es': "es' = e # r"
      by auto
    from Cons.IH [OF r] es' show ?thesis by simp
  qed
qed

lemma hit_first_length: "hit_first b es = Some es' \<Longrightarrow> length es' = length es"
  by (induction es arbitrary: es') (auto split: if_splits)

lemma bullets_vs_enemies_fst:
  "fst (bullets_vs_enemies bs es) = filter (\<lambda>b. \<not> (\<exists>e\<in>set es. hits b e)) bs"
proof (induction bs arbitrary: es)
  case Nil
  show ?case by simp
next
  case (Cons b bs)
  show ?case
  proof (cases "hit_first b es")
    case None
    then have "\<not> (\<exists>e\<in>set es. hits b e)" by (simp add: hit_first_None)
    with None Cons.IH [of es] show ?thesis by (simp add: split_beta)
  next
    case (Some es1)
    then have "\<exists>e\<in>set es. hits b e"
      using hit_first_None [of b es] by auto
    moreover have "\<And>c. (\<exists>e\<in>set es1. hits c e) = (\<exists>e\<in>set es. hits c e)"
      using hit_first_hits [OF Some] .
    ultimately show ?thesis using Some Cons.IH [of es1] by simp
  qed
qed

lemma bullets_vs_enemies_sum_hp:
  "sum_list (map hp (snd (bullets_vs_enemies bs es))) =
     sum_list (map hp es) - real (length (filter (\<lambda>b. \<exists>e\<in>set es. hits b e) bs))"
proof (induction bs arbitrary: es)
  case Nil
  show ?case by simp
next
  case (Cons b bs)
  show ?case
  proof (cases "hit_first b es")
    case None
    then have "\<not> (\<exists>e\<in>set es. hits b e)" by (simp add: hit_first_None)
    with None Cons.IH [of es] show ?thesis by (simp add: split_beta)
  next
    case (Some es1)
    then have h: "\<exists>e\<in>set es. hits b e"
      using hit_first_None [of b es] by auto
    have same: "\<And>c. (\<exists>e\<in>set es1. hits c e) = (\<exists>e\<in>set es. hits c e)"
      using hit_first_hits [OF Some] .
    have "sum_list (map hp (snd (bullets_vs_enemies bs es1))) =
        sum_list (map hp es1) - real (length (filter (\<lambda>b. \<exists>e\<in>set es1. hits b e) bs))"
      by (rule Cons.IH)
    with Some h same hit_first_sum_hp [OF Some] show ?thesis by simp
  qed
qed

lemma bullets_vs_enemies_length: "length (snd (bullets_vs_enemies bs es)) = length es"
proof (induction bs arbitrary: es)
  case Nil
  show ?case by simp
next
  case (Cons b bs)
  then show ?case
    by (cases "hit_first b es") (simp_all add: split_beta hit_first_length)
qed

lemma stage_hits_closed:
  "stage_hits g =
     g\<lparr>bullets := filter (\<lambda>b. \<not> (\<exists>e\<in>set (enemies g). hits b e)) (bullets g),
       enemies := snd (bullets_vs_enemies (bullets g) (enemies g))\<rparr>"
  by (simp add: stage_hits_def split_beta bullets_vs_enemies_fst)

lemma mk_shards_length: "length (fst (mk_shards R e k n)) = k"
  by (induction k arbitrary: n) (simp_all add: Let_def split_beta)

lemma mk_shards_shard_of:
  "rand_ok R \<Longrightarrow> list_all (shard_of e) (fst (mk_shards R e k n))"
proof (induction k arbitrary: n)
  case 0
  show ?case by simp
next
  case (Suc k)
  from Suc.prems have u: "\<And>m a b. a \<le> b \<Longrightarrow> a \<le> rnd_uniform R m a b \<and> rnd_uniform R m a b \<le> b"
    by (simp add: rand_ok_def)
  have "3 \<le> rnd_uniform R (n + 2) 3 6 \<and> rnd_uniform R (n + 2) 3 6 \<le> 6"
    by (rule u) simp
  moreover have "6 \<le> rnd_uniform R (n + 3) 6 12 \<and> rnd_uniform R (n + 3) 6 12 \<le> 12"
    by (rule u) simp
  ultimately show ?case
    using Suc.IH [OF Suc.prems, of "n + 4"] by (simp add: Let_def split_beta shard_of_def)
qed

lemma randint_2_5: "rand_ok R \<Longrightarrow> 2 \<le> nat (rnd_randint R n 2 5) \<and> nat (rnd_randint R n 2 5) \<le> 5"
proof -
  assume "rand_ok R"
  then have "2 \<le> rnd_randint R n 2 5 \<and> rnd_randint R n 2 5 \<le> 5"
    by (simp add: rand_ok_def)
  then show ?thesis by linarith
qed

lemma dead_shards_shards_of:
  "rand_ok R \<Longrightarrow> list_all2 shards_of (filter dead es) (fst (dead_shards R es n))"
proof (induction es arbitrary: n)
  case Nil
  show ?case by simp
next
  case (Cons e es)
  show ?case
  proof (cases "hp e \<le> 0")
    case True
    have "shards_of e (fst (mk_shards R e (nat (rnd_randint R n 2 5)) (n + 1)))"
      using randint_2_5 [OF Cons.prems, of n] mk_shards_shard_of [OF Cons.prems]
      by (simp add: shards_of_def mk_shards_length)
    with True Cons.IH [OF Cons.prems] show ?thesis
      by (simp add: dead_def Let_def split_beta)
  next
    case False
    with Cons.IH [OF Cons.prems] show ?thesis by (simp add: dead_def)
  qed
qed

lemma resolve_dead_closed:
  "resolve_dead R es g =
     (filter (\<lambda>e. \<not> dead e) es,
      g\<lparr>shards := shards g @ concat (fst (dead_shards R es (rnd_n g))),
        score := score g + int (length (filter dead es)),
        rnd_n := snd (dead_shards R es (rnd_n g))\<rparr>)"
proof (induction es arbitrary: g)
  case Nil
  show ?case by simp
next
  case (Cons e es)
  show ?case
  proof (cases "hp e \<le> 0")
    case True
    then show ?thesis
      by (simp add: Cons.IH dead_def enemy_die_def Let_def split_beta)
  next
    case False
    then show ?thesis
      by (simp add: Cons.IH dead_def split_beta)
  qed
qed

lemma stage_deaths_closed:
  "stage_deaths R g =
     g\<lparr>shards := shards g @ concat (fst (dead_shards R (enemies g) (rnd_n g))),
       score := score g + int (length (filter dead (enemies g))),
       rnd_n := snd (dead_shards R (enemies g) (rnd_n g)),
       enemies := filter (\<lambda>e. \<not> dead e) (enemies g)\<rparr>"
  by (simp add: stage_deaths_def resolve_dead_closed)

lemma ebullets_vs_player_fst:
  "fst (ebullets_vs_player pr sa bs en) = filter (\<lambda>b. \<not> colliderect (laser_rect b) pr) bs"
  by (cases sa; induction bs arbitrary: en) (simp_all add: split_beta)

lemma ebullets_vs_player_snd:
  "snd (ebullets_vs_player pr sa bs en) =
     (if sa then en
      else (hit_damage ^^ length (filter (\<lambda>b. colliderect (laser_rect b) pr) bs)) en)"
  by (cases sa; induction bs arbitrary: en) (simp_all add: split_beta hit_damage_def funpow_swap1)

lemma stage_ebullets_closed:
  "stage_ebullets g =
     g\<lparr>ebullets := filter (\<lambda>b. \<not> overlaps_player g b) (ebullets g),
       energy := (if shield_active g then energy g
                  else (hit_damage ^^ length (filter (overlaps_player g) (ebullets g))) (energy g))\<rparr>"
  by (simp add: stage_ebullets_def split_beta ebullets_vs_player_fst ebullets_vs_player_snd
      overlaps_player_def [abs_def])

lemma shards_collect_fst:
  "fst (shards_collect pr emax dt ss en) =
     filter (\<lambda>s. \<not> ttl s \<le> 0 \<and> \<not> colliderect pr (shard_rect s)) (map (shard_update dt) ss)"
  by (induction ss arbitrary: en) (simp_all add: Let_def split_beta)

lemma shards_collect_bounds:
  "0 \<le> en \<Longrightarrow> en \<le> emax \<Longrightarrow> list_all (\<lambda>s. 0 \<le> sh_value s) ss \<Longrightarrow>
   0 \<le> snd (shards_collect pr emax dt ss en) \<and> snd (shards_collect pr emax dt ss en) \<le> emax"
proof (induction ss arbitrary: en)
  case Nil
  then show ?case by simp
next
  case (Cons s ss)
  from Cons.prems have v: "0 \<le> sh_value (shard_update dt s)" and rest: "list_all (\<lambda>s. 0 \<le> sh_value s) ss"
    by (simp_all add: shard_update_def)
  have a: "0 \<le> min emax (en + sh_value (shard_update dt s))"
    using Cons.prems(1,2) v by simp
  have b: "min emax (en + sh_value (shard_update dt s)) \<le> emax"
    by simp
  show ?case
    using Cons.IH [OF Cons.prems(1,2) rest] Cons.IH [OF a b rest]
    by (simp add: Let_def split_beta)
qed

subsection \<open>What the later stages write\<close>

lemma stage_shards_closed:
  "stage_shards dt g =
     g\<lparr>shards := filter (\<lambda>s. \<not> ttl s \<le> 0 \<and> \<not> colliderect (prect g) (shard_rect s))
                  (map (shard_update dt) (shards g)),
       energy := snd (shards_collect (prect g) (energy_max g) dt (shards g) (energy g))\<rparr>"
  by (simp add: stage_shards_def split_beta shards_collect_fst)

lemma prect_cong:
  "px g' = px g \<Longrightarrow> py g' = py g \<Longrightarrow> prect g' = prect g"
  by (simp add: prect_def)

lemma stage_cull_fields:
  "width (stage_cull g) = width g" "height (stage_cull g) = height g"
  "px (stage_cull g) = px g" "py (stage_cull g) = py g"
  "base_speed (stage_cull g) = base_speed g" "boost_mul (stage_cull g) = boost_mul g"
  "energy (stage_cull g) = energy g" "energy_max (stage_cull g) = energy_max g"
  "boost_active (stage_cull g) = boost_active g" "shield_active (stage_cull g) = shield_active g"
  "shoot_cd (stage_cull g) = shoot_cd g" "score (stage_cull g) = score g"
  "stars (stage_cull g) = stars g" "bullets (stage_cull g) = bullets g"
  "ebullets (stage_cull g) = ebullets g" "shards (stage_cull g) = shards g"
  "spawn_t (stage_cull g) = spawn_t g" "rnd_n (stage_cull g) = rnd_n g"
  "enemies (stage_cull g) = filter (keep_enemy (height g)) (enemies g)"
  by (simp_all add: stage_cull_def)

lemma stage_hits_fields:
  "width (stage_hits g) = width g" "height (stage_hits g) = height g"
  "px (stage_hits g) = px g" "py (stage_hits g) = py g"
  "base_speed (stage_hits g) = base_speed g" "boost_mul (stage_hits g) = boost_mul g"
  "energy (stage_hits g) = energy g" "energy_max (stage_hits g) = energy_max g"
  "boost_active (stage_hits g) = boost_active g" "shield_active (stage_hits g) = shield_active g"
  "shoot_cd (stage_hits g) = shoot_cd g" "score (stage_hits g) = score g"
  "stars (stage_hits g) = stars g"
  "ebullets (stage_hits g) = ebullets g" "shards (stage_hits g) = shards g"
  "spawn_t (stage_hits g) = spawn_t g" "rnd_n (stage_hits g) = rnd_n g"
  "bullets (stage_hits g) = filter (\<lambda>b. \<not> (\<exists>e\<in>set (enemies g). hits b e)) (bullets g)"
  "enemies (stage_hits g) = snd (bullets_vs_enemies (bullets g) (enemies g))"
  by (simp_all add: stage_hits_closed)

lemma stage_deaths_fields:
  "width (stage_deaths R g) = width g" "height (stage_deaths R g) = height g"
  "px (stage_deaths R g) = px g" "py (stage_deaths R g) = py g"
  "base_speed (stage_deaths R g) = base_speed g" "boost_mul (stage_deaths R g) = boost_mul g"
  "energy (stage_deaths R g) = energy g" "energy_max (stage_deaths R g) = energy_max g"
  "boost_active (stage_deaths R g) = boost_active g" "shield_active (stage_deaths R g) = shield_active g"
  "shoot_cd (stage_deaths R g) = shoot_cd g"
  "stars (stage_deaths R g) = stars g" "bullets (stage_deaths R g) = bullets g"
  "ebullets (stage_deaths R g) = ebullets g"
  "spawn_t (stage_deaths R g) = spawn_t g"
  "score (stage_deaths R g) = score g + int (length (filter dead (enemies g)))"
  "shards (stage_deaths R g) = shards g @ concat (fst (dead_shards R (enemies g) (rnd_n g)))"
  "enemies (stage_deaths R g) = filter (\<lambda>e. \<not> dead e) (enemies g)"
  by (simp_all add: stage_deaths_closed)

lemma stage_ebullets_fields:
  "width (stage_ebullets g) = width g" "height (stage_ebullets g) = height g"
  "px (stage_ebullets g) = px g" "py (stage_ebullets g) = py g"
  "base_speed (stage_ebullets g) = base_speed g" "boost_mul (stage_ebullets g) = boost_mul g"
  "energy_max (stage_ebullets g) = energy_max g"
  "boost_active (stage_ebullets g) = boost_active g" "shield_active (stage_ebullets g) = shield_active g"
  "shoot_cd (stage_ebullets g) = shoot_cd g" "score (stage_ebullets g) = score g"
  "stars (stage_ebullets g) = stars g" "bullets (stage_ebullets g) = bullets g"
  "enemies (stage_ebullets g) = enemies g" "shards (stage_ebullets g) = shards g"
  "spawn_t (stage_ebullets g) = spawn_t g" "rnd_n (stage_ebullets g) = rnd_n g"
  "ebullets (stage_ebullets g) = filter (\<lambda>b. \<not> overlaps_player g b) (ebullets g)"
  "energy (stage_ebullets g) =
     (if shield_active g then energy g
      else (hit_damage ^^ length (filter (overlaps_player g) (ebullets g))) (energy g))"
  by (simp_all add: stage_ebullets_closed)

lemma stage_shards_fields:
  "width (stage_shards dt g) = width g" "height (stage_shards dt g) = height g"
  "px (stage_shards dt g) = px g" "py (stage_shards dt g) = py g"
  "base_speed (stage_shards dt g) = base_speed g" "boost_mul (stage_shards dt g) = boost_mul g"
  "energy_max (stage_shards dt g) = energy_max g"
  "boost_active (stage_shards dt g) = boost_active g" "shield_active (stage_shards dt g) = shield_active g"
  "shoot_cd (stage_shards dt g) = shoot_cd g" "score (stage_shards dt g) = score g"
  "stars (stage_shards dt g) = stars g" "bullets (stage_shards dt g) = bullets g"
  "ebullets (stage_shards dt g) = ebullets g"
  "enemies (stage_shards dt g) = enemies g"
  "spawn_t (stage_shards dt g) = spawn_t g" "rnd_n (stage_shards dt g) = rnd_n g"
  "shards (stage_shards dt g) =
     filter (\<lambda>s. \<not> ttl s \<le> 0 \<and> \<not> colliderect (prect g) (shard_rect s))
       (map (shard_update dt) (shards g))"
  "energy (stage_shards dt g) =
     snd (shards_collect (prect g) (energy_max g) dt (shards g) (energy g))"
  by (simp_all add: stage_shards_closed)

lemmas late_fields = stage_cull_fields stage_hits_fields stage_deaths_fields stage_ebullets_fields
  stage_shards_fields

lemma init_game_stars: "length (stars (init_game R wd ht)) = 140"
  using init_stars_length [of R wd ht 140 0] by (simp add: init_game_def split_beta)

lemma hypot_zero_iff: "hypot dx dy = 0 \<longleftrightarrow> dx = 0 \<and> dy = 0"
  by (simp add: hypot_def)

subsection \<open>Claims about every call\<close>

text \<open>
  Claim C7. The step is total and never raises a division fault. For every state, random
  source and input, \<open>update\<close> returns a state and not \<open>ZeroDivisionError\<close>. The divisor
  of the aiming calculation of a red enemy and of every chase step of a snake is
  \<open>hypot_or_1 dx dy\<close>: it is 1 exactly when the two points coincide and the distance
  otherwise, it is never 0, and dividing by it returns a value.
\<close>

theorem update_never_divides_by_zero:
  "(\<exists>g'. update R dt move_dx move_dy shoot boost shield g = Inr g') \<and>
   hypot_or_1 dx dy = (if dx = 0 \<and> dy = 0 then 1 else hypot dx dy) \<and>
   hypot_or_1 dx dy \<noteq> 0 \<and>
   fdiv a (hypot_or_1 dx dy) = Inr (a / hypot_or_1 dx dy)"
proof -
  have "\<exists>g'. update R dt move_dx move_dy shoot boost shield g = Inr g'"
    by (rule update_stages [of R dt move_dx move_dy shoot boost shield g]) blast
  moreover have "hypot_or_1 dx dy = (if dx = 0 \<and> dy = 0 then 1 else hypot dx dy)"
    by (simp add: hypot_or_1_def hypot_zero_iff)
  moreover note hypot_or_1_nonzero [of dx dy] fdiv_hypot_or_1 [of a dx dy]
  ultimately show ?thesis
    by blast
qed

text \<open>
  Claim C8. The score is monotonically non-decreasing: for every state and every input, the
  call returns a state whose score is at least the score before the call.
\<close>

theorem update_score_mono:
  "\<exists>g'. update R dt move_dx move_dy shoot boost shield g = Inr g' \<and> score g \<le> score g'"
proof (rule update_stages [of R dt move_dx move_dy shoot boost shield g])
  fix es bs n g7
  assume g7: "g7 = (before_enemies R dt move_dx move_dy shoot boost shield g)
      \<lparr>enemies := es, ebullets := ebullets (before_enemies R dt move_dx move_dy shoot boost shield g) @ bs,
       rnd_n := n\<rparr>"
    and u: "update R dt move_dx move_dy shoot boost shield g =
      Inr (stage_shards dt (stage_ebullets (stage_deaths R (stage_hits (stage_cull g7)))))"
  have "score (stage_shards dt (stage_ebullets (stage_deaths R (stage_hits (stage_cull g7))))) =
      score g + int (length (filter dead (enemies (stage_hits (stage_cull g7)))))"
    by (simp add: late_fields g7 before_enemies_fields)
  with u show ?thesis by simp
qed

text \<open>
  Claim C10. Every call leaves \<open>width\<close>, \<open>height\<close>, \<open>base_speed\<close>, \<open>boost_mul\<close> and
  \<open>energy_max\<close> as they were and keeps the number of stars; construction creates 140 stars.
\<close>

theorem update_frame:
  "(\<exists>g'. update R dt move_dx move_dy shoot boost shield g = Inr g' \<and>
      width g' = width g \<and> height g' = height g \<and> base_speed g' = base_speed g \<and>
      boost_mul g' = boost_mul g \<and> energy_max g' = energy_max g \<and>
      length (stars g') = length (stars g)) \<and>
   length (stars (init_game R wd ht)) = 140"
proof -
  have "\<exists>g'. update R dt move_dx move_dy shoot boost shield g = Inr g' \<and>
      width g' = width g \<and> height g' = height g \<and> base_speed g' = base_speed g \<and>
      boost_mul g' = boost_mul g \<and> energy_max g' = energy_max g \<and>
      length (stars g') = length (stars g)"
  proof (rule update_stages [of R dt move_dx move_dy shoot boost shield g])
    fix es bs n g7
    assume g7: "g7 = (before_enemies R dt move_dx move_dy shoot boost shield g)
        \<lparr>enemies := es, ebullets := ebullets (before_enemies R dt move_dx move_dy shoot boost shield g) @ bs,
         rnd_n := n\<rparr>"
      and u: "update R dt move_dx move_dy shoot boost shield g =
        Inr (stage_shards dt (stage_ebullets (stage_deaths R (stage_hits (stage_cull g7)))))"
    show ?thesis
      unfolding u by (simp add: late_fields g7 before_enemies_fields)
  qed
  then show ?thesis by (simp add: init_game_stars)
qed

subsection \<open>Invariants of the host loop\<close>

lemma init_game_fields:
  "width (init_game R wd ht) = wd" "height (init_game R wd ht) = ht"
  "px (init_game R wd ht) = real_of_int wd * (18 / 100)"
  "py (init_game R wd ht) = real_of_int ht * (5 / 10)"
  "energy (init_game R wd ht) = 60" "energy_max (init_game R wd ht) = 120"
  "shards (init_game R wd ht) = []" "score (init_game R wd ht) = 0"
  "bullets (init_game R wd ht) = []" "ebullets (init_game R wd ht) = []"
  "enemies (init_game R wd ht) = []"
  by (simp_all add: init_game_def split_beta)

lemma update_in_box:
  assumes "40 \<le> width g" and "40 \<le> height g"
  shows "\<exists>g'. update R dt mdx mdy sh bo sd g = Inr g' \<and> in_box g' \<and>
               width g' = width g \<and> height g' = height g"
proof (rule update_stages [of R dt mdx mdy sh bo sd g])
  fix es bs n g7
  assume g7: "g7 = (before_enemies R dt mdx mdy sh bo sd g)
      \<lparr>enemies := es, ebullets := ebullets (before_enemies R dt mdx mdy sh bo sd g) @ bs, rnd_n := n\<rparr>"
    and u: "update R dt mdx mdy sh bo sd g =
      Inr (stage_shards dt (stage_ebullets (stage_deaths R (stage_hits (stage_cull g7)))))"
  let ?g' = "stage_shards dt (stage_ebullets (stage_deaths R (stage_hits (stage_cull g7))))"
  have x: "px ?g' = px (stage_move dt mdx mdy (stage_energy dt bo sd g))"
    and y: "py ?g' = py (stage_move dt mdx mdy (stage_energy dt bo sd g))"
    and w: "width ?g' = width g" and h: "height ?g' = height g"
    by (simp_all add: late_fields g7 before_enemies_fields)
  have "in_box ?g'"
    using assms unfolding in_box_def x y w h
    by (simp add: stage_move_pos stage_energy_fields)
  with u w h show ?thesis by simp
qed

lemma run_frames_in_box:
  "40 \<le> width g \<Longrightarrow> 40 \<le> height g \<Longrightarrow> in_box g \<Longrightarrow>
   \<exists>g'. run_frames R g fs = Inr g' \<and> in_box g' \<and> width g' = width g \<and> height g' = height g"
proof (induction fs arbitrary: g)
  case Nil
  then show ?case by simp
next
  case (Cons f fs)
  obtain g1 where u: "update R (f_dt f) (f_dx f) (f_dy f) (f_shoot f) (f_boost f) (f_shield f) g = Inr g1"
    and b: "in_box g1" and w: "width g1 = width g" and h: "height g1 = height g"
    using update_in_box [OF Cons.prems(1,2)] by blast
  from Cons.IH [of g1] Cons.prems(1,2) b w h
  obtain g' where "run_frames R g1 fs = Inr g'" "in_box g'" "width g' = width g" "height g' = height g"
    by auto
  with u show ?case by (simp add: bind_err_def)
qed

lemma init_game_in_box: "112 \<le> wd \<Longrightarrow> 40 \<le> ht \<Longrightarrow> in_box (init_game R wd ht)"
  by (simp add: in_box_def init_game_fields)

lemma hit_damage_funpow: "0 \<le> en \<Longrightarrow> 0 \<le> (hit_damage ^^ k) en \<and> (hit_damage ^^ k) en \<le> en"
proof (induction k)
  case 0
  then show ?case by simp
next
  case (Suc k)
  then show ?case by (auto simp: hit_damage_def)
qed

lemma dead_shards_values:
  "rand_ok R \<Longrightarrow> list_all (\<lambda>s. 0 \<le> sh_value s) (concat (fst (dead_shards R es n)))"
proof (induction es arbitrary: n)
  case Nil
  show ?case by simp
next
  case (Cons e es)
  have "list_all (shard_of e) (fst (mk_shards R e (nat (rnd_randint R n 2 5)) (n + 1)))"
    by (rule mk_shards_shard_of [OF Cons.prems])
  then have "list_all (\<lambda>s. 0 \<le> sh_value s) (fst (mk_shards R e (nat (rnd_randint R n 2 5)) (n + 1)))"
    by (rule list.pred_mono_strong) (simp add: shard_of_def)
  with Cons.IH [OF Cons.prems] show ?case
    by (simp add: Let_def split_beta)
qed

lemma update_energy_inv:
  assumes R: "rand_ok R" and dt: "0 \<le> dt" and inv: "energy_inv g"
  shows "\<exists>g'. update R dt mdx mdy sh bo sd g = Inr g' \<and> energy_inv g'"
proof (rule update_stages [of R dt mdx mdy sh bo sd g])
  fix es bs n g7
  assume g7: "g7 = (before_enemies R dt mdx mdy sh bo sd g)
      \<lparr>enemies := es, ebullets := ebullets (before_enemies R dt mdx mdy sh bo sd g) @ bs, rnd_n := n\<rparr>"
    and u: "update R dt mdx mdy sh bo sd g =
      Inr (stage_shards dt (stage_ebullets (stage_deaths R (stage_hits (stage_cull g7)))))"
  let ?gd = "stage_deaths R (stage_hits (stage_cull g7))"
  let ?ge = "stage_ebullets ?gd"
  let ?g' = "stage_shards dt ?ge"
  from inv have e0: "0 \<le> energy g" and e1: "energy g \<le> energy_max g"
    and v: "list_all (\<lambda>s. 0 \<le> sh_value s) (shards g)"
    by (simp_all add: energy_inv_def)
  have d: "energy ?gd = energy (stage_energy dt bo sd g)" and m: "energy_max ?gd = energy_max g"
    by (simp_all add: late_fields g7 before_enemies_fields)
  have d0: "0 \<le> energy ?gd" and d1: "energy ?gd \<le> energy g"
    using dt e0 unfolding d by (simp_all add: stage_energy_energy)
  have ge: "0 \<le> energy ?ge \<and> energy ?ge \<le> energy ?gd"
    using hit_damage_funpow [OF d0] d0 by (simp add: stage_ebullets_fields)
  have sh: "list_all (\<lambda>s. 0 \<le> sh_value s) (shards ?ge)"
    using v dead_shards_values [OF R]
    by (simp add: late_fields g7 before_enemies_fields)
  have em: "energy_max ?ge = energy_max g"
    by (simp add: late_fields g7 before_enemies_fields)
  have b: "0 \<le> energy ?g' \<and> energy ?g' \<le> energy_max g"
    unfolding stage_shards_fields em
    by (rule shards_collect_bounds) (use ge d1 e1 sh in auto)
  have "list_all (\<lambda>s. 0 \<le> sh_value s) (shards ?g')"
    using sh unfolding stage_shards_fields
    by (auto simp: list_all_iff shard_update_def)
  moreover have "energy_max ?g' = energy_max g"
    by (simp add: late_fields g7 before_enemies_fields)
  ultimately have "energy_inv ?g'"
    using b by (simp add: energy_inv_def)
  with u show ?thesis by simp
qed

lemma run_frames_energy_inv:
  "rand_ok R \<Longrightarrow> list_all in_range fs \<Longrightarrow> energy_inv g \<Longrightarrow>
   \<exists>g'. run_frames R g fs = Inr g' \<and> energy_inv g'"
proof (induction fs arbitrary: g)
  case Nil
  then show ?case by simp
next
  case (Cons f fs)
  from Cons.prems(2) have "in_range f" and rest: "list_all in_range fs"
    by simp_all
  then have "0 \<le> f_dt f"
    by (simp add: in_range_def)
  with rest obtain g1 where u: "update R (f_dt f) (f_dx f) (f_dy f) (f_shoot f) (f_boost f) (f_shield f) g = Inr g1"
    and i: "energy_inv g1"
    using update_energy_inv [OF Cons.prems(1) _ Cons.prems(3)] by blast
  from Cons.IH [OF Cons.prems(1) rest i] u show ?case
    by (simp add: bind_err_def)
qed

lemma init_game_energy_inv: "energy_inv (init_game R wd ht)"
  by (simp add: energy_inv_def init_game_fields)

lemma rand_ok_low_src: "rand_ok low_src"
  by (simp add: rand_ok_def low_src_def)

lemma in_range_frame0: "in_range frame0"
  by (simp add: in_range_def frame0_def)

text \<open>
  Claim C1. For every state reachable from construction by calls with in-range inputs
  (\<open>dt > 0\<close>, movement components in \<open>[-1, 1]\<close>) and every further such call, the energy
  satisfies \<open>0 \<le> energy \<le> energy_max\<close> before and after the call, provided the random
  source answers within the ranges asked of it.
\<close>

theorem energy_bounds:
  assumes "rand_ok R" and "list_all in_range fs" and "in_range f"
  shows "\<exists>g g'. run_frames R (init_game R wd ht) fs = Inr g \<and>
           0 \<le> energy g \<and> energy g \<le> energy_max g \<and>
           update R (f_dt f) (f_dx f) (f_dy f) (f_shoot f) (f_boost f) (f_shield f) g = Inr g' \<and>
           0 \<le> energy g' \<and> energy g' \<le> energy_max g'"
proof -
  obtain g where g: "run_frames R (init_game R wd ht) fs = Inr g" and i: "energy_inv g"
    using run_frames_energy_inv [OF assms(1,2) init_game_energy_inv [of R wd ht]] by blast
  from assms(3) have "0 \<le> f_dt f"
    by (simp add: in_range_def)
  from update_energy_inv [OF assms(1) this i, of "f_dx f" "f_dy f" "f_shoot f" "f_boost f" "f_shield f"]
  obtain g' where
    "update R (f_dt f) (f_dx f) (f_dy f) (f_shoot f) (f_boost f) (f_shield f) g = Inr g'"
    "energy_inv g'"
    by blast
  with g i show ?thesis
    by (auto simp: energy_inv_def)
qed

theorem energy_bounds_witness:
  "rand_ok low_src \<and> list_all in_range [frame0, frame0] \<and> in_range frame0 \<and>
   (\<exists>g g'. run_frames low_src (init_game low_src 800 600) [frame0, frame0] = Inr g \<and>
      0 \<le> energy g \<and> energy g \<le> energy_max g \<and>
      update low_src (f_dt frame0) (f_dx frame0) (f_dy frame0) (f_shoot frame0) (f_boost frame0)
        (f_shield frame0) g = Inr g' \<and>
      0 \<le> energy g' \<and> energy g' \<le> energy_max g')"
proof -
  have l: "list_all in_range [frame0, frame0]"
    by (simp add: in_range_frame0)
  from energy_bounds [OF rand_ok_low_src l in_range_frame0, of 800 600]
  show ?thesis
    using rand_ok_low_src l in_range_frame0 by blast
qed

lemma update_in_box_iff:
  "\<exists>g'. update R dt mdx mdy sh bo sd g = Inr g' \<and>
        width g' = width g \<and> height g' = height g \<and>
        (in_box g' \<longleftrightarrow> 40 \<le> width g \<and> 40 \<le> height g)"
proof (rule update_stages [of R dt mdx mdy sh bo sd g])
  fix es bs n g7
  assume g7: "g7 = (before_enemies R dt mdx mdy sh bo sd g)
      \<lparr>enemies := es, ebullets := ebullets (before_enemies R dt mdx mdy sh bo sd g) @ bs, rnd_n := n\<rparr>"
    and u: "update R dt mdx mdy sh bo sd g =
      Inr (stage_shards dt (stage_ebullets (stage_deaths R (stage_hits (stage_cull g7)))))"
  let ?g' = "stage_shards dt (stage_ebullets (stage_deaths R (stage_hits (stage_cull g7))))"
  have x: "px ?g' = px (stage_move dt mdx mdy (stage_energy dt bo sd g))"
    and y: "py ?g' = py (stage_move dt mdx mdy (stage_energy dt bo sd g))"
    and w: "width ?g' = width g" and h: "height ?g' = height g"
    by (simp_all add: late_fields g7 before_enemies_fields)
  have "in_box ?g' \<longleftrightarrow> 40 \<le> width g \<and> 40 \<le> height g"
    unfolding in_box_def x y w h
    by (auto simp: stage_move_pos stage_energy_fields)
  with u w h show ?thesis by simp
qed

lemma init_game_in_box_iff: "in_box (init_game R wd ht) \<longleftrightarrow> 112 \<le> wd \<and> 40 \<le> ht"
proof -
  have a: "20 \<le> real_of_int wd * (18 / 100) \<longleftrightarrow> 112 \<le> wd"
  proof -
    have "20 \<le> real_of_int wd * (18 / 100) \<longleftrightarrow> real_of_int 2000 \<le> real_of_int (18 * wd)"
      by (simp add: field_simps)
    also have "\<dots> \<longleftrightarrow> 2000 \<le> 18 * wd"
      by (rule of_int_le_iff)
    also have "\<dots> \<longleftrightarrow> 112 \<le> wd"
      by presburger
    finally show ?thesis .
  qed
  have b: "112 \<le> wd \<Longrightarrow> real_of_int wd * (18 / 100) \<le> real_of_int wd - 20"
    by simp
  have c: "20 \<le> real_of_int ht * (5 / 10) \<longleftrightarrow> 40 \<le> ht"
    by (auto simp: field_simps)
  have d: "real_of_int ht * (5 / 10) \<le> real_of_int ht - 20 \<longleftrightarrow> 40 \<le> ht"
    by (auto simp: field_simps)
  show ?thesis
    unfolding in_box_def init_game_fields using a b c d by auto
qed

lemma run_frames_in_box_nonempty:
  assumes "40 \<le> wd" and "40 \<le> ht" and "fs \<noteq> []"
  shows "\<exists>g. run_frames R (init_game R wd ht) fs = Inr g \<and> in_box g"
proof -
  from assms(3) obtain f fs' where fs: "fs = f # fs'"
    by (cases fs) auto
  have wh: "40 \<le> width (init_game R wd ht)" "40 \<le> height (init_game R wd ht)"
    using assms(1,2) by (simp_all add: init_game_fields)
  from update_in_box [OF wh]
  obtain g1 where u: "update R (f_dt f) (f_dx f) (f_dy f) (f_shoot f) (f_boost f) (f_shield f)
      (init_game R wd ht) = Inr g1"
    and b: "in_box g1" and w: "width g1 = width (init_game R wd ht)"
    and h: "height g1 = height (init_game R wd ht)"
    by blast
  from wh w h have "40 \<le> width g1" "40 \<le> height g1" by simp_all
  from run_frames_in_box [OF this b]
  obtain g where "run_frames R g1 fs' = Inr g" "in_box g" by blast
  with u fs show ?thesis by (simp add: bind_err_def)
qed

text \<open>
  Claim C2, as amended. Right after construction the player position lies within
  \<open>[20, width - 20] \<times> [20, height - 20]\<close> exactly when \<open>width \<ge> 112\<close> and \<open>height \<ge> 40\<close>.
  After a call to \<open>update\<close>, from any state and with any input, it lies within that box
  exactly when \<open>width \<ge> 40\<close> and \<open>height \<ge> 40\<close>. So on a playfield with \<open>width \<ge> 40\<close> and
  \<open>height \<ge> 40\<close> the position is in the box in every frame after the first call, and with
  \<open>width \<ge> 112\<close> in every frame, the one before the first call included.
\<close>

theorem position_clamp_amended:
  "(in_box (init_game R wd ht) \<longleftrightarrow> 112 \<le> wd \<and> 40 \<le> ht) \<and>
   (\<exists>g'. update R dt mdx mdy sh bo sd g = Inr g' \<and>
         width g' = width g \<and> height g' = height g \<and>
         (in_box g' \<longleftrightarrow> 40 \<le> width g \<and> 40 \<le> height g)) \<and>
   (40 \<le> wd \<and> 40 \<le> ht \<and> fs \<noteq> [] \<longrightarrow>
      (\<exists>g. run_frames R (init_game R wd ht) fs = Inr g \<and>
           20 \<le> px g \<and> px g \<le> real_of_int (width g - 20) \<and>
           20 \<le> py g \<and> py g \<le> real_of_int (height g - 20))) \<and>
   (112 \<le> wd \<and> 40 \<le> ht \<longrightarrow>
      (\<exists>g. run_frames R (init_game R wd ht) fs = Inr g \<and>
           20 \<le> px g \<and> px g \<le> real_of_int (width g - 20) \<and>
           20 \<le> py g \<and> py g \<le> real_of_int (height g - 20)))"
proof (intro conjI impI)
  show "in_box (init_game R wd ht) \<longleftrightarrow> 112 \<le> wd \<and> 40 \<le> ht"
    by (rule init_game_in_box_iff)
  show "\<exists>g'. update R dt mdx mdy sh bo sd g = Inr g' \<and>
         width g' = width g \<and> height g' = height g \<and>
         (in_box g' \<longleftrightarrow> 40 \<le> width g \<and> 40 \<le> height g)"
    by (rule update_in_box_iff)
next
  assume "40 \<le> wd \<and> 40 \<le> ht \<and> fs \<noteq> []"
  then show "\<exists>g. run_frames R (init_game R wd ht) fs = Inr g \<and>
           20 \<le> px g \<and> px g \<le> real_of_int (width g - 20) \<and>
           20 \<le> py g \<and> py g \<le> real_of_int (height g - 20)"
    using run_frames_in_box_nonempty [of wd ht fs R] by (auto simp: in_box_def)
next
  assume a: "112 \<le> wd \<and> 40 \<le> ht"
  then have "40 \<le> width (init_game R wd ht)" "40 \<le> height (init_game R wd ht)"
    by (simp_all add: init_game_fields)
  moreover from a have "in_box (init_game R wd ht)"
    by (simp add: init_game_in_box)
  ultimately show "\<exists>g. run_frames R (init_game R wd ht) fs = Inr g \<and>
           20 \<le> px g \<and> px g \<le> real_of_int (width g - 20) \<and>
           20 \<le> py g \<and> py g \<le> real_of_int (height g - 20)"
    using run_frames_in_box [of "init_game R wd ht" R fs] by (auto simp: in_box_def)
qed

theorem position_clamp_amended_witness:
  "(40::int) \<le> 50 \<and> [frame0] \<noteq> [] \<and> \<not> in_box (init_game low_src 50 50) \<and>
   (\<exists>g. run_frames low_src (init_game low_src 50 50) [frame0] = Inr g \<and>
        20 \<le> px g \<and> px g \<le> real_of_int (width g - 20) \<and>
        20 \<le> py g \<and> py g \<le> real_of_int (height g - 20)) \<and>
   (112::int) \<le> 800 \<and> (40::int) \<le> 600 \<and> in_box (init_game low_src 800 600) \<and>
   (\<exists>g. run_frames low_src (init_game low_src 800 600) [frame0, frame0] = Inr g \<and>
        20 \<le> px g \<and> px g \<le> real_of_int (width g - 20) \<and>
        20 \<le> py g \<and> py g \<le> real_of_int (height g - 20))"
  using position_clamp_amended [of low_src 50 50 "1 / 60" 0 0 False False False "init_game low_src 50 50" "[frame0]"]
    position_clamp_amended [of low_src 800 600 "1 / 60" 0 0 False False False "init_game low_src 800 600" "[frame0, frame0]"]
  by simp

text \<open>
  Claim C2 as stated fails in both of its parts on small playfields. After construction:
  on 100 by 100 the player starts at \<open>x = 18\<close>, left of the 20 pixel margin. After a call:
  on a playfield 30 wide the clamp \<open>max(20, min(width - 20, .))\<close> leaves \<open>x \<ge> 20 > 10\<close>.
\<close>

theorem position_clamp_counterexample:
  "px (init_game low_src 100 100) = 18 \<and> \<not> in_box (init_game low_src 100 100) \<and>
   (\<exists>g'. update low_src (1 / 60) 0 0 False False False (init_game low_src 30 100) = Inr g' \<and>
         width g' = 30 \<and> \<not> in_box g')"
proof -
  from update_in_box_iff [of low_src "1 / 60" 0 0 False False False "init_game low_src 30 100"]
  have "\<exists>g'. update low_src (1 / 60) 0 0 False False False (init_game low_src 30 100) = Inr g' \<and>
         width g' = 30 \<and> \<not> in_box g'"
    by (auto simp: init_game_fields)
  then show ?thesis
    by (simp add: init_game_fields in_box_def)
qed

subsection \<open>Evaluating a call on a concrete state\<close>

lemmas stage_defs = before_enemies_def after_enemies_def stage_energy_def stage_move_def
  stage_shoot_def fire_player_def stage_stars_def stage_bullets_def stage_spawn_def
  stage_enemies_def stage_cull_def stage_hits_def stage_deaths_def stage_ebullets_def
  stage_shards_def upto_cull_def upto_hits_def upto_deaths_def upto_ebullets_def
  Let_def split_beta bind_err_def

lemmas geom_defs = prect_def Rect_def colliderect_def py_int_def laser_rect_def Laser_def
  laser_update_def keep_bullet_def keep_ebullet_def shard_rect_def shard_update_def
  keep_enemy_def RED_def YELLOW_def

lemma funpow_hit_damage:
  "(\<lambda>en. max 0 (en - 12)) = hit_damage"
  by (simp add: hit_damage_def [abs_def])

text \<open>
  Claim C3. In every call, with \<open>gd\<close> the state entering the collision of hostile
  projectiles with the player and \<open>ge\<close> the state leaving it: the player hitbox is the 24 by
  20 rectangle at \<open>(int(px - 12), int(py - 10))\<close>; the hostile projectiles after the call are
  exactly those whose rectangle does not overlap it, in their order; with the shield active
  the stage leaves the energy as it was; without it every overlapping projectile lowers the
  energy by 12, floored at 0.
\<close>

theorem hostile_projectiles_vs_player:
  "\<exists>gd ge g'.
     upto_deaths R dt mdx mdy sh bo sd g = Inr gd \<and>
     upto_ebullets R dt mdx mdy sh bo sd g = Inr ge \<and>
     update R dt mdx mdy sh bo sd g = Inr g' \<and>
     prect gd = Rect (py_int (px g' - 12)) (py_int (py g' - 10)) 24 20 \<and>
     shield_active gd = shield_active g' \<and>
     ebullets g' = filter (\<lambda>b. \<not> colliderect (laser_rect b) (prect gd)) (ebullets gd) \<and>
     (shield_active g' \<longrightarrow> energy ge = energy gd) \<and>
     (\<not> shield_active g' \<longrightarrow>
        energy ge =
          ((\<lambda>en. max 0 (en - 12)) ^^
             length (filter (\<lambda>b. colliderect (laser_rect b) (prect gd)) (ebullets gd))) (energy gd))"
proof (rule update_stages [of R dt mdx mdy sh bo sd g])
  fix es bs n g7
  assume d: "upto_deaths R dt mdx mdy sh bo sd g = Inr (stage_deaths R (stage_hits (stage_cull g7)))"
    and e: "upto_ebullets R dt mdx mdy sh bo sd g =
      Inr (stage_ebullets (stage_deaths R (stage_hits (stage_cull g7))))"
    and u: "update R dt mdx mdy sh bo sd g =
      Inr (stage_shards dt (stage_ebullets (stage_deaths R (stage_hits (stage_cull g7)))))"
  let ?gd = "stage_deaths R (stage_hits (stage_cull g7))"
  let ?ge = "stage_ebullets ?gd"
  let ?g' = "stage_shards dt ?ge"
  have p: "prect ?gd = Rect (py_int (px ?g' - 12)) (py_int (py ?g' - 10)) 24 20"
    by (simp add: prect_def stage_shards_fields stage_ebullets_fields)
  have s: "shield_active ?gd = shield_active ?g'"
    by (simp add: stage_shards_fields stage_ebullets_fields)
  have b: "ebullets ?g' = filter (\<lambda>b. \<not> colliderect (laser_rect b) (prect ?gd)) (ebullets ?gd)"
    by (simp add: stage_shards_fields stage_ebullets_fields overlaps_player_def [abs_def])
  have en: "energy ?ge =
      (if shield_active ?gd then energy ?gd
       else ((\<lambda>en. max 0 (en - 12)) ^^
               length (filter (\<lambda>b. colliderect (laser_rect b) (prect ?gd)) (ebullets ?gd))) (energy ?gd))"
    by (simp add: stage_ebullets_fields overlaps_player_def [abs_def] funpow_hit_damage)
  from d e u p s b en show ?thesis
    by (intro exI [of _ ?gd] exI [of _ ?ge] exI [of _ ?g']) simp
qed

theorem hostile_projectiles_vs_player_witness:
  "\<exists>gd ge g'.
     upto_deaths low_src (1 / 60) 0 0 False False False g_hit = Inr gd \<and>
     upto_ebullets low_src (1 / 60) 0 0 False False False g_hit = Inr ge \<and>
     update low_src (1 / 60) 0 0 False False False g_hit = Inr g' \<and>
     \<not> shield_active g' \<and> map l_x (ebullets gd) = [316 / 3, 1186 / 3] \<and>
     map l_x (ebullets g') = [1186 / 3] \<and> energy gd = 50 \<and> energy ge = 38 \<and> energy g' = 38"
proof -
  from hostile_projectiles_vs_player [of low_src "1 / 60" 0 0 False False False g_hit]
  obtain gd ge g' where
    d: "upto_deaths low_src (1 / 60) 0 0 False False False g_hit = Inr gd" and
    e: "upto_ebullets low_src (1 / 60) 0 0 False False False g_hit = Inr ge" and
    u: "update low_src (1 / 60) 0 0 False False False g_hit = Inr g'" and
    b: "ebullets g' = filter (\<lambda>b. \<not> colliderect (laser_rect b) (prect gd)) (ebullets gd)" and
    n: "\<not> shield_active g' \<longrightarrow>
        energy ge =
          ((\<lambda>en. max 0 (en - 12)) ^^
             length (filter (\<lambda>b. colliderect (laser_rect b) (prect gd)) (ebullets gd))) (energy gd)"
    by blast
  have gd: "gd = g_hit\<lparr>ebullets := [Laser (316 / 3) 300 (- 280) 0 RED False,
                                      Laser (1186 / 3) 300 (- 280) 0 RED False],
                         spawn_t := 59 / 60\<rparr>"
    using d by (auto simp: stage_defs geom_defs g_hit_def)
  have g': "shield_active g' = False" "energy g' = energy ge"
    using e u by (auto simp: update_upto stage_defs geom_defs g_hit_def)
  have "energy ge = 38"
    using n g' by (simp add: gd geom_defs g_hit_def)
  moreover have "map l_x (ebullets g') = [1186 / 3]"
    unfolding b by (simp add: gd geom_defs g_hit_def)
  ultimately show ?thesis
    using d e u g' by (simp add: gd geom_defs g_hit_def)
qed


text \<open>
  Claim C9. Boost and shield are active in a call exactly when requested with the energy
  strictly positive at the start of the call, and the flag does not change within the call.
  A shield that was granted absorbs the hits of the call whatever the drain left of the
  energy; a shield that was not granted (energy 0, or not requested) absorbs nothing and
  every overlapping projectile applies the 12 point damage, floored at 0.
\<close>

theorem activation_decided_at_start:
  "\<exists>gd ge g'.
     upto_deaths R dt mdx mdy sh bo sd g = Inr gd \<and>
     upto_ebullets R dt mdx mdy sh bo sd g = Inr ge \<and>
     update R dt mdx mdy sh bo sd g = Inr g' \<and>
     boost_active g' = (bo \<and> 0 < energy g) \<and>
     shield_active g' = (sd \<and> 0 < energy g) \<and>
     shield_active gd = (sd \<and> 0 < energy g) \<and>
     energy gd = max 0 (energy g - ((if bo \<and> 0 < energy g then 20 * dt else 0) +
                                   (if sd \<and> 0 < energy g then 28 * dt else 0))) \<and>
     ebullets g' = filter (\<lambda>b. \<not> colliderect (laser_rect b) (prect gd)) (ebullets gd) \<and>
     (sd \<and> 0 < energy g \<longrightarrow> energy ge = energy gd) \<and>
     (\<not> (sd \<and> 0 < energy g) \<longrightarrow>
        energy ge =
          ((\<lambda>en. max 0 (en - 12)) ^^
             length (filter (\<lambda>b. colliderect (laser_rect b) (prect gd)) (ebullets gd))) (energy gd))"
proof (rule update_stages [of R dt mdx mdy sh bo sd g])
  fix es bs n g7
  assume g7: "g7 = (before_enemies R dt mdx mdy sh bo sd g)
      \<lparr>enemies := es, ebullets := ebullets (before_enemies R dt mdx mdy sh bo sd g) @ bs, rnd_n := n\<rparr>"
    and d: "upto_deaths R dt mdx mdy sh bo sd g = Inr (stage_deaths R (stage_hits (stage_cull g7)))"
    and e: "upto_ebullets R dt mdx mdy sh bo sd g =
      Inr (stage_ebullets (stage_deaths R (stage_hits (stage_cull g7))))"
    and u: "update R dt mdx mdy sh bo sd g =
      Inr (stage_shards dt (stage_ebullets (stage_deaths R (stage_hits (stage_cull g7)))))"
  let ?gd = "stage_deaths R (stage_hits (stage_cull g7))"
  let ?ge = "stage_ebullets ?gd"
  let ?g' = "stage_shards dt ?ge"
  have s: "shield_active ?gd = (sd \<and> 0 < energy g)"
    by (simp add: late_fields g7 before_enemies_fields)
  have s': "shield_active ?g' = (sd \<and> 0 < energy g)" and b': "boost_active ?g' = (bo \<and> 0 < energy g)"
    by (simp_all add: late_fields g7 before_enemies_fields)
  have ed: "energy ?gd = max 0 (energy g - ((if bo \<and> 0 < energy g then 20 * dt else 0) +
                                   (if sd \<and> 0 < energy g then 28 * dt else 0)))"
    by (simp add: late_fields g7 before_enemies_fields stage_energy_energy)
  have b: "ebullets ?g' = filter (\<lambda>b. \<not> colliderect (laser_rect b) (prect ?gd)) (ebullets ?gd)"
    by (simp add: stage_shards_fields stage_ebullets_fields overlaps_player_def [abs_def])
  have en: "energy ?ge =
      (if shield_active ?gd then energy ?gd
       else ((\<lambda>en. max 0 (en - 12)) ^^
               length (filter (\<lambda>b. colliderect (laser_rect b) (prect ?gd)) (ebullets ?gd))) (energy ?gd))"
    by (simp add: stage_ebullets_fields overlaps_player_def [abs_def] funpow_hit_damage)
  from d e u s s' b' b ed en show ?thesis
    by (intro exI [of _ ?gd] exI [of _ ?ge] exI [of _ ?g']) simp
qed

theorem activation_decided_at_start_witness:
  "(\<exists>gd ge g'.
      upto_deaths low_src (1 / 60) 0 0 False False True g_low = Inr gd \<and>
      upto_ebullets low_src (1 / 60) 0 0 False False True g_low = Inr ge \<and>
      update low_src (1 / 60) 0 0 False False True g_low = Inr g' \<and>
      0 < energy g_low \<and> shield_active g' \<and> energy gd = 0 \<and> energy ge = 0 \<and>
      map l_x (ebullets gd) = [316 / 3, 1186 / 3] \<and> map l_x (ebullets g') = [1186 / 3]) \<and>
   (\<exists>gd ge g'.
      upto_deaths low_src (1 / 60) 0 0 False False True g_zero = Inr gd \<and>
      upto_ebullets low_src (1 / 60) 0 0 False False True g_zero = Inr ge \<and>
      update low_src (1 / 60) 0 0 False False True g_zero = Inr g' \<and>
      energy g_zero = 0 \<and> \<not> shield_active g' \<and> energy gd = 0 \<and>
      energy ge = max 0 (energy gd - 12) \<and>
      map l_x (ebullets gd) = [316 / 3, 1186 / 3] \<and> map l_x (ebullets g') = [1186 / 3])"
proof -
  have 1: "\<exists>gd ge g'.
      upto_deaths low_src (1 / 60) 0 0 False False True g_low = Inr gd \<and>
      upto_ebullets low_src (1 / 60) 0 0 False False True g_low = Inr ge \<and>
      update low_src (1 / 60) 0 0 False False True g_low = Inr g' \<and>
      0 < energy g_low \<and> shield_active g' \<and> energy gd = 0 \<and> energy ge = 0 \<and>
      map l_x (ebullets gd) = [316 / 3, 1186 / 3] \<and> map l_x (ebullets g') = [1186 / 3]"
  proof -
    from activation_decided_at_start [of low_src "1 / 60" 0 0 False False True g_low]
    obtain gd ge g' where
      d: "upto_deaths low_src (1 / 60) 0 0 False False True g_low = Inr gd" and
      e: "upto_ebullets low_src (1 / 60) 0 0 False False True g_low = Inr ge" and
      u: "update low_src (1 / 60) 0 0 False False True g_low = Inr g'" and
      s: "shield_active g' = (True \<and> 0 < energy g_low)" and
      b: "ebullets g' = filter (\<lambda>b. \<not> colliderect (laser_rect b) (prect gd)) (ebullets gd)" and
      a: "True \<and> 0 < energy g_low \<longrightarrow> energy ge = energy gd"
      by blast
    have gd: "gd = g_hit\<lparr>energy := 0, shield_active := True,
                           ebullets := [Laser (316 / 3) 300 (- 280) 0 RED False,
                                        Laser (1186 / 3) 300 (- 280) 0 RED False],
                           spawn_t := 59 / 60\<rparr>"
      using d by (auto simp: stage_defs geom_defs g_hit_def g_low_def)
    have "energy ge = 0"
      using a by (simp add: gd g_low_def g_hit_def)
    moreover have "map l_x (ebullets g') = [1186 / 3]"
      unfolding b by (simp add: gd geom_defs g_hit_def)
    ultimately show ?thesis
      using d e u s by (simp add: gd geom_defs g_hit_def g_low_def)
  qed
  have 2: "\<exists>gd ge g'.
      upto_deaths low_src (1 / 60) 0 0 False False True g_zero = Inr gd \<and>
      upto_ebullets low_src (1 / 60) 0 0 False False True g_zero = Inr ge \<and>
      update low_src (1 / 60) 0 0 False False True g_zero = Inr g' \<and>
      energy g_zero = 0 \<and> \<not> shield_active g' \<and> energy gd = 0 \<and>
      energy ge = max 0 (energy gd - 12) \<and>
      map l_x (ebullets gd) = [316 / 3, 1186 / 3] \<and> map l_x (ebullets g') = [1186 / 3]"
  proof -
    from activation_decided_at_start [of low_src "1 / 60" 0 0 False False True g_zero]
    obtain gd ge g' where
      d: "upto_deaths low_src (1 / 60) 0 0 False False True g_zero = Inr gd" and
      e: "upto_ebullets low_src (1 / 60) 0 0 False False True g_zero = Inr ge" and
      u: "update low_src (1 / 60) 0 0 False False True g_zero = Inr g'" and
      s: "shield_active g' = (True \<and> 0 < energy g_zero)" and
      b: "ebullets g' = filter (\<lambda>b. \<not> colliderect (laser_rect b) (prect gd)) (ebullets gd)" and
      a: "\<not> (True \<and> 0 < energy g_zero) \<longrightarrow>
          energy ge =
            ((\<lambda>en. max 0 (en - 12)) ^^
               length (filter (\<lambda>b. colliderect (laser_rect b) (prect gd)) (ebullets gd))) (energy gd)"
      by blast
    have gd: "gd = g_hit\<lparr>energy := 0,
                           ebullets := [Laser (316 / 3) 300 (- 280) 0 RED False,
                                        Laser (1186 / 3) 300 (- 280) 0 RED False],
                           spawn_t := 59 / 60\<rparr>"
      using d by (auto simp: stage_defs geom_defs g_hit_def g_zero_def)
    have "energy ge = max 0 (energy gd - 12)"
      using a by (simp add: gd geom_defs g_zero_def g_hit_def)
    moreover have "map l_x (ebullets g') = [1186 / 3]"
      unfolding b by (simp add: gd geom_defs g_hit_def)
    ultimately show ?thesis
      using d e u s by (simp add: gd geom_defs g_hit_def g_zero_def)
  qed
  from 1 2 show ?thesis by blast
qed

subsection \<open>Claims about single stages\<close>

lemmas enemy_defs = enemy_step_def Enemy_def no_data_def hits_def enemy_rect_def dead_def
  enemy_die_def low_src_def keep_enemy_def

text \<open>
  Claim C4. In every call, with \<open>gh\<close> the state entering the death resolution and \<open>gd\<close> the
  state leaving it: the enemies after the call are exactly the enemies of \<open>gh\<close> with
  hitpoints above 0, in their order; the score after the call is the score before it plus
  the number of enemies of \<open>gh\<close> with hitpoints \<open>\<le> 0\<close>; and the stage appends to the shards
  one group per such enemy, of 2 to 5 shards, each at the enemy's position with \<open>ttl\<close> in
  \<open>[3, 6]\<close> and \<open>value\<close> in \<open>[6, 12]\<close>, provided the random source answers within the ranges
  asked of it.
\<close>

theorem enemy_death_resolution:
  assumes "rand_ok R"
  shows "\<exists>gh gd g'.
     upto_hits R dt mdx mdy sh bo sd g = Inr gh \<and>
     upto_deaths R dt mdx mdy sh bo sd g = Inr gd \<and>
     update R dt mdx mdy sh bo sd g = Inr g' \<and>
     enemies g' = filter (\<lambda>e. \<not> dead e) (enemies gh) \<and>
     list_all (\<lambda>e. 0 < hp e) (enemies g') \<and>
     score g' = score g + int (length (filter dead (enemies gh))) \<and>
     (\<exists>new. shards gd = shards g @ concat new \<and>
            list_all2 shards_of (filter dead (enemies gh)) new)"
proof (rule update_stages [of R dt mdx mdy sh bo sd g])
  fix es bs n g7
  assume g7: "g7 = (before_enemies R dt mdx mdy sh bo sd g)
      \<lparr>enemies := es, ebullets := ebullets (before_enemies R dt mdx mdy sh bo sd g) @ bs, rnd_n := n\<rparr>"
    and h: "upto_hits R dt mdx mdy sh bo sd g = Inr (stage_hits (stage_cull g7))"
    and d: "upto_deaths R dt mdx mdy sh bo sd g = Inr (stage_deaths R (stage_hits (stage_cull g7)))"
    and u: "update R dt mdx mdy sh bo sd g =
      Inr (stage_shards dt (stage_ebullets (stage_deaths R (stage_hits (stage_cull g7)))))"
  let ?gh = "stage_hits (stage_cull g7)"
  let ?gd = "stage_deaths R ?gh"
  let ?g' = "stage_shards dt (stage_ebullets ?gd)"
  let ?new = "fst (dead_shards R (enemies ?gh) (rnd_n ?gh))"
  have e: "enemies ?g' = filter (\<lambda>e. \<not> dead e) (enemies ?gh)"
    by (simp add: stage_shards_fields stage_ebullets_fields stage_deaths_fields)
  then have a: "list_all (\<lambda>e. 0 < hp e) (enemies ?g')"
    by (simp add: list_all_iff dead_def not_le)
  have s: "score ?g' = score g + int (length (filter dead (enemies ?gh)))"
    by (simp add: late_fields g7 before_enemies_fields)
  have "shards ?gd = shards g @ concat ?new"
    by (simp add: late_fields g7 before_enemies_fields)
  moreover have "list_all2 shards_of (filter dead (enemies ?gh)) ?new"
    by (rule dead_shards_shards_of [OF assms])
  ultimately have "\<exists>new. shards ?gd = shards g @ concat new \<and>
      list_all2 shards_of (filter dead (enemies ?gh)) new"
    by blast
  with h d u e a s show ?thesis
    by (intro exI [of _ ?gh] exI [of _ ?gd] exI [of _ ?g']) simp
qed

theorem enemy_death_resolution_witness:
  "rand_ok low_src \<and>
   (\<exists>gh gd g'.
      upto_hits low_src (1 / 60) 0 0 False False False g_kill = Inr gh \<and>
      upto_deaths low_src (1 / 60) 0 0 False False False g_kill = Inr gd \<and>
      update low_src (1 / 60) 0 0 False False False g_kill = Inr g' \<and>
      map e_kind (enemies gh) = [Asteroid, Blob] \<and> map hp (enemies gh) = [0, 3] \<and>
      map e_x (enemies gh) = [498, 508] \<and> map e_y (enemies gh) = [300, 300] \<and>
      map e_kind (enemies g') = [Blob] \<and> score g_kill = 0 \<and> score g' = 1 \<and>
      shards g_kill = [] \<and>
      map sh_x (shards gd) = [498, 498] \<and> map sh_y (shards gd) = [300, 300] \<and>
      map ttl (shards gd) = [3, 3] \<and> map sh_value (shards gd) = [6, 6])"
proof -
  from enemy_death_resolution [OF rand_ok_low_src, of "1 / 60" 0 0 False False False g_kill]
  obtain gh gd g' where
    h: "upto_hits low_src (1 / 60) 0 0 False False False g_kill = Inr gh" and
    d: "upto_deaths low_src (1 / 60) 0 0 False False False g_kill = Inr gd" and
    u: "update low_src (1 / 60) 0 0 False False False g_kill = Inr g'" and
    e: "enemies g' = filter (\<lambda>e. \<not> dead e) (enemies gh)" and
    s: "score g' = score g_kill + int (length (filter dead (enemies gh)))"
    by blast
  have gh: "map e_kind (enemies gh) = [Asteroid, Blob]" "map hp (enemies gh) = [0, 3]"
    "map e_x (enemies gh) = [498, 508]" "map e_y (enemies gh) = [300, 300]"
    using h by (auto simp: stage_defs geom_defs enemy_defs g_kill_def)
  then have k: "filter dead (enemies gh) = [hd (enemies gh)]"
    "filter (\<lambda>e. \<not> dead e) (enemies gh) = tl (enemies gh)"
    by (auto simp: dead_def)
  have g': "map e_kind (enemies g') = [Blob]" "score g' = 1"
    using gh by (auto simp: e s k g_kill_def)
  have gd: "map sh_x (shards gd) = [498, 498]" "map sh_y (shards gd) = [300, 300]"
    "map ttl (shards gd) = [3, 3]" "map sh_value (shards gd) = [6, 6]"
    using d by (auto simp: stage_defs geom_defs enemy_defs g_kill_def eval_nat_numeral)
  from h d u gh g' gd show ?thesis
    by (simp add: rand_ok_low_src g_kill_def)
qed

lemma first_match_Some:
  "first_match b es = Some i \<longleftrightarrow>
     i < length es \<and> hits b (es ! i) \<and> (\<forall>j<i. \<not> hits b (es ! j))"
proof (induction es arbitrary: i)
  case Nil
  show ?case by simp
next
  case (Cons e es)
  show ?case
  proof (cases "hits b e")
    case True
    then show ?thesis
      by (cases i) auto
  next
    case False
    show ?thesis
    proof (cases i)
      case 0
      with False show ?thesis by auto
    next
      case (Suc k)
      have "(\<forall>j<Suc k. \<not> hits b ((e # es) ! j)) \<longleftrightarrow> (\<forall>j<k. \<not> hits b (es ! j))"
        using False by (auto simp: less_Suc_eq_0_disj)
      with False Suc Cons.IH [of k] show ?thesis by auto
    qed
  qed
qed

lemma first_match_None: "first_match b es = None \<longleftrightarrow> (\<forall>e\<in>set es. \<not> hits b e)"
  by (induction es) auto

lemma hit_first_first_match:
  "hit_first b es =
     (case first_match b es of
        None \<Rightarrow> None
      | Some i \<Rightarrow> Some (es[i := (es ! i)\<lparr>hp := hp (es ! i) - 1\<rparr>]))"
  by (induction es) (auto split: option.splits)

lemma first_match_hp_update:
  "first_match c (es[i := (es ! i)\<lparr>hp := v\<rparr>]) = first_match c es"
proof (induction es arbitrary: i)
  case Nil
  show ?case by simp
next
  case (Cons e es)
  show ?case
    by (cases i) (simp_all add: hits_hp Cons.IH)
qed

lemma damage_at_hp_update:
  "damage_at bs (es[i := (es ! i)\<lparr>hp := v\<rparr>]) k = damage_at bs es k"
  by (simp add: damage_at_def first_match_hp_update)

lemma bullets_vs_enemies_nth:
  "i < length es \<Longrightarrow>
   snd (bullets_vs_enemies bs es) ! i = (es ! i)\<lparr>hp := hp (es ! i) - real (damage_at bs es i)\<rparr>"
proof (induction bs arbitrary: es)
  case Nil
  show ?case by (simp add: damage_at_def)
next
  case (Cons b bs)
  show ?case
  proof (cases "first_match b es")
    case None
    then have "hit_first b es = None" by (simp add: hit_first_first_match)
    moreover have "damage_at (b # bs) es i = damage_at bs es i"
      using None by (simp add: damage_at_def)
    ultimately show ?thesis
      using Cons.IH [OF Cons.prems] by (simp add: split_beta)
  next
    case (Some k)
    let ?es1 = "es[k := (es ! k)\<lparr>hp := hp (es ! k) - 1\<rparr>]"
    have h: "hit_first b es = Some ?es1"
      using Some by (simp add: hit_first_first_match)
    have i: "i < length ?es1" using Cons.prems by simp
    have d: "damage_at (b # bs) es i = (if i = k then 1 else 0) + damage_at bs es i"
      using Some by (auto simp: damage_at_def)
    have "snd (bullets_vs_enemies (b # bs) es) ! i = snd (bullets_vs_enemies bs ?es1) ! i"
      using h by simp
    also have "\<dots> = (?es1 ! i)\<lparr>hp := hp (?es1 ! i) - real (damage_at bs ?es1 i)\<rparr>"
      by (rule Cons.IH [OF i])
    also have "\<dots> = (es ! i)\<lparr>hp := hp (es ! i) - real (damage_at (b # bs) es i)\<rparr>"
      using Cons.prems d by (cases "i = k") (auto simp: damage_at_hp_update)
    finally show ?thesis .
  qed
qed

lemma hits_kinds:
  "hits b e =
     (case e_kind e of
        Asteroid \<Rightarrow> (l_x b - e_x e)\<^sup>2 + (l_y b - e_y e)\<^sup>2
                      \<le> (real_of_int (case d_r (e_data e) of None \<Rightarrow> 18 | Some r \<Rightarrow> r) + 4)\<^sup>2
      | Blob \<Rightarrow> (l_x b - e_x e)\<^sup>2 + (l_y b - e_y e)\<^sup>2 \<le> 18\<^sup>2
      | Red \<Rightarrow> colliderect (laser_rect b) (enemy_rect e)
      | Snake \<Rightarrow> (l_x b - e_x e)\<^sup>2 + (l_y b - e_y e)\<^sup>2 \<le> 16\<^sup>2)"
  by (simp add: hits_def Let_def power2_eq_square split: kind.splits)

text \<open>
  Claim C5. In every call, with \<open>gc\<close> the state entering the collision of friendly
  projectiles with enemies and \<open>gh\<close> the state leaving it: a projectile matches an enemy by
  the hitbox test of the enemy's kind (squared distance against \<open>(r + 4)\<^sup>2\<close>, \<open>18\<^sup>2\<close>, \<open>16\<^sup>2\<close>
  for asteroid, blob, snake; rectangle collision for red); its first match is the first
  enemy in collection order that it matches; the projectiles kept, also after the call, are
  exactly those with no match, in their order; and every enemy loses exactly one hitpoint
  per projectile whose first match it is, and nothing else changes in it, so a projectile
  damages one enemy at most.
\<close>

theorem single_hit_rule:
  "\<exists>gc gh g'.
     upto_cull R dt mdx mdy sh bo sd g = Inr gc \<and>
     upto_hits R dt mdx mdy sh bo sd g = Inr gh \<and>
     update R dt mdx mdy sh bo sd g = Inr g' \<and>
     bullets gh = filter (\<lambda>b. first_match b (enemies gc) = None) (bullets gc) \<and>
     bullets g' = bullets gh \<and>
     length (enemies gh) = length (enemies gc) \<and>
     (\<forall>i<length (enemies gc).
        enemies gh ! i =
          (enemies gc ! i)\<lparr>hp := hp (enemies gc ! i)
                                   - real (damage_at (bullets gc) (enemies gc) i)\<rparr>) \<and>
     (\<forall>b i. first_match b (enemies gc) = Some i \<longleftrightarrow>
        i < length (enemies gc) \<and> hits b (enemies gc ! i) \<and>
        (\<forall>j<i. \<not> hits b (enemies gc ! j))) \<and>
     (\<forall>b e. hits b e =
        (case e_kind e of
           Asteroid \<Rightarrow> (l_x b - e_x e)\<^sup>2 + (l_y b - e_y e)\<^sup>2
                         \<le> (real_of_int (case d_r (e_data e) of None \<Rightarrow> 18 | Some r \<Rightarrow> r) + 4)\<^sup>2
         | Blob \<Rightarrow> (l_x b - e_x e)\<^sup>2 + (l_y b - e_y e)\<^sup>2 \<le> 18\<^sup>2
         | Red \<Rightarrow> colliderect (laser_rect b) (enemy_rect e)
         | Snake \<Rightarrow> (l_x b - e_x e)\<^sup>2 + (l_y b - e_y e)\<^sup>2 \<le> 16\<^sup>2))"
proof (rule update_stages [of R dt mdx mdy sh bo sd g])
  fix es bs n g7
  assume c: "upto_cull R dt mdx mdy sh bo sd g = Inr (stage_cull g7)"
    and h: "upto_hits R dt mdx mdy sh bo sd g = Inr (stage_hits (stage_cull g7))"
    and u: "update R dt mdx mdy sh bo sd g =
      Inr (stage_shards dt (stage_ebullets (stage_deaths R (stage_hits (stage_cull g7)))))"
  let ?gc = "stage_cull g7"
  let ?gh = "stage_hits ?gc"
  let ?g' = "stage_shards dt (stage_ebullets (stage_deaths R ?gh))"
  have b: "bullets ?gh = filter (\<lambda>b. first_match b (enemies ?gc) = None) (bullets ?gc)"
    unfolding first_match_None by (simp add: stage_hits_fields)
  have b': "bullets ?g' = bullets ?gh"
    by (simp add: stage_shards_fields stage_ebullets_fields stage_deaths_fields)
  have l: "length (enemies ?gh) = length (enemies ?gc)"
    unfolding stage_hits_fields by (rule bullets_vs_enemies_length)
  have e: "\<forall>i<length (enemies ?gc).
      enemies ?gh ! i =
        (enemies ?gc ! i)\<lparr>hp := hp (enemies ?gc ! i) - real (damage_at (bullets ?gc) (enemies ?gc) i)\<rparr>"
    unfolding stage_hits_fields using bullets_vs_enemies_nth by blast
  show ?thesis
    apply (rule exI [of _ ?gc], rule exI [of _ ?gh], rule exI [of _ ?g'], intro conjI)
            apply (rule c)
           apply (rule h)
          apply (rule u)
         apply (rule b)
        apply (rule b')
       apply (rule l)
      apply (rule e)
     apply (intro allI, rule first_match_Some)
    apply (intro allI, rule hits_kinds)
    done
qed

theorem single_hit_rule_witness:
  "\<exists>gc gh g'.
     upto_cull low_src (1 / 60) 0 0 False False False g_kill = Inr gc \<and>
     upto_hits low_src (1 / 60) 0 0 False False False g_kill = Inr gh \<and>
     update low_src (1 / 60) 0 0 False False False g_kill = Inr g' \<and>
     map l_x (bullets gc) = [1511 / 3] \<and> map l_y (bullets gc) = [300] \<and>
     map e_kind (enemies gc) = [Asteroid, Blob] \<and>
     map e_x (enemies gc) = [498, 508] \<and> map e_y (enemies gc) = [300, 300] \<and>
     hits (hd (bullets gc)) (enemies gc ! 0) \<and> hits (hd (bullets gc)) (enemies gc ! 1) \<and>
     map hp (enemies gc) = [1, 3] \<and> map hp (enemies gh) = [0, 3] \<and>
     bullets gh = [] \<and> bullets g' = []"
proof -
  from single_hit_rule [of low_src "1 / 60" 0 0 False False False g_kill]
  obtain gc gh g' where
    c: "upto_cull low_src (1 / 60) 0 0 False False False g_kill = Inr gc" and
    h: "upto_hits low_src (1 / 60) 0 0 False False False g_kill = Inr gh" and
    u: "update low_src (1 / 60) 0 0 False False False g_kill = Inr g'" and
    b: "bullets gh = filter (\<lambda>b. first_match b (enemies gc) = None) (bullets gc)" and
    b': "bullets g' = bullets gh" and
    l: "length (enemies gh) = length (enemies gc)" and
    e: "\<forall>i<length (enemies gc).
        enemies gh ! i =
          (enemies gc ! i)\<lparr>hp := hp (enemies gc ! i) - real (damage_at (bullets gc) (enemies gc) i)\<rparr>"
    by blast
  have gc: "bullets gc = [Laser (1511 / 3) 300 520 0 YELLOW True]"
    "enemies gc = [(Enemy Asteroid 498 300 (- 120) 0 1 (no_data\<lparr>d_r := Some 20\<rparr>))\<lparr>e_t := 1 / 60\<rparr>,
                   (Enemy Blob 508 300 (- 120) 0 3 no_data)\<lparr>e_t := 1 / 60\<rparr>]"
    using c by (auto simp: stage_defs geom_defs enemy_defs g_kill_def)
  have hit: "hits (hd (bullets gc)) (enemies gc ! 0)" "hits (hd (bullets gc)) (enemies gc ! 1)"
    by (simp_all add: gc geom_defs enemy_defs)
  then have fm: "first_match (hd (bullets gc)) (enemies gc) = Some 0"
    by (simp add: gc)
  have d: "damage_at (bullets gc) (enemies gc) 0 = 1" "damage_at (bullets gc) (enemies gc) 1 = 0"
    using fm by (simp_all add: damage_at_def gc)
  have "length (enemies gh) = Suc (Suc 0)"
    using l by (simp add: gc)
  then obtain a1 a2 where ab: "enemies gh = [a1, a2]"
    by (auto simp: length_Suc_conv)
  have n0: "enemies gh ! 0 = (enemies gc ! 0)\<lparr>hp := hp (enemies gc ! 0) - 1\<rparr>"
    and n1: "enemies gh ! 1 = (enemies gc ! 1)\<lparr>hp := hp (enemies gc ! 1) - 0\<rparr>"
    using e d by (simp_all add: gc(2))
  have a1: "hp a1 = 0"
    using n0 by (simp add: ab gc(2) Enemy_def)
  have a2: "hp a2 = 3"
    using n1 by (simp add: ab gc(2) Enemy_def)
  have bh: "bullets gh = []"
    unfolding b using fm by (simp add: gc)
  have facts: "map l_x (bullets gc) = [1511 / 3]" "map l_y (bullets gc) = [300]"
    "map e_kind (enemies gc) = [Asteroid, Blob]"
    "map e_x (enemies gc) = [498, 508]" "map e_y (enemies gc) = [300, 300]"
    "map hp (enemies gc) = [1, 3]" "map hp (enemies gh) = [0, 3]"
    by (simp_all add: gc Laser_def Enemy_def ab a1 a2)
  have bg: "bullets g' = []"
    using b' bh by simp
  show ?thesis
    by (rule exI [of _ gc], rule exI [of _ gh], rule exI [of _ g'])
      (intro conjI c h u hit facts bh bg)
qed

subsection \<open>Projectile culling\<close>

lemma hypot_x_0: "hypot dx 0 = \<bar>dx\<bar>"
  by (simp add: hypot_def)

lemma stage_shoot_bullets:
  "bullets (stage_shoot dt s g) =
     bullets g @ (if s \<and> max 0 (shoot_cd g - dt) \<le> 0
                  then [Laser (px g + 18) (py g) 520 0 YELLOW True] else [])"
  by (simp add: stage_shoot_def fire_player_def Let_def)

lemma before_enemies_bullets:
  "bullets (before_enemies R dt mdx mdy s bo sd g) =
     filter (keep_bullet (width g) (height g))
       (map (laser_update dt) (bullets (stage_shoot dt s (stage_move dt mdx mdy (stage_energy dt bo sd g)))))"
  by (simp add: before_enemies_def early_fields)

lemma culled_far_right:
  assumes "l_x b = real_of_int wd + 100" and "0 \<le> l_vx b" and "0 \<le> dt"
  shows "\<not> keep_bullet wd ht (laser_update dt b)"
proof -
  have "0 \<le> l_vx b * dt" using assms(2,3) by simp
  then show ?thesis using assms(1) by (simp add: keep_bullet_def laser_update_def)
qed

lemma kept_near_right:
  assumes "l_x b = real_of_int wd + 50" and "l_vx b = 520" and "l_vy b = 0"
    and "- 40 \<le> l_y b" and "l_y b \<le> real_of_int ht + 40" and "0 \<le> dt" and "dt \<le> 1 / 60"
    and "0 \<le> wd"
  shows "keep_bullet wd ht (laser_update dt b)"
  using assms by (simp add: keep_bullet_def laser_update_def)

text \<open>
  Claim C6, as amended. After every call, every friendly projectile lies inside
  \<open>[-40, width + 80] \<times> [-40, height + 40]\<close>. The hostile projectiles past the cull are the
  integrated old ones inside \<open>[-80, width + 40] \<times> [-40, height + 40]\<close> followed by those that
  red enemies fire during the call, which no cull of this call checks; so every hostile
  projectile after the call is inside that box or was fired in the call. A friendly
  projectile at \<open>x = width + 100\<close> that does not move left is gone after a call with
  \<open>dt > 0\<close>. One at \<open>x = width + 50\<close> with velocity \<open>(520, 0)\<close> and \<open>y\<close> in
  \<open>[-40, height + 40]\<close>, on a playfield of width \<open>\<ge> 0\<close> and with \<open>0 < dt \<le> 1/60\<close>, is
  still there after the call provided it matches no enemy in the call.
\<close>

theorem projectile_culling_amended:
  "\<exists>gc g'.
     upto_cull R dt mdx mdy sh bo sd g = Inr gc \<and>
     update R dt mdx mdy sh bo sd g = Inr g' \<and>
     list_all (keep_bullet (width g) (height g)) (bullets g') \<and>
     ebullets gc =
       filter (keep_ebullet (width g) (height g)) (map (laser_update dt) (ebullets g))
       @ fired_now R dt mdx mdy sh bo sd g \<and>
     (\<forall>b\<in>set (ebullets g').
        b \<in> set (fired_now R dt mdx mdy sh bo sd g) \<or> keep_ebullet (width g) (height g) b) \<and>
     (\<forall>b\<in>set (bullets g).
        l_x b = real_of_int (width g) + 100 \<and> 0 \<le> l_vx b \<and> 0 < dt \<longrightarrow>
        laser_update dt b \<notin> set (bullets g')) \<and>
     (\<forall>b\<in>set (bullets g).
        l_x b = real_of_int (width g) + 50 \<and> l_vx b = 520 \<and> l_vy b = 0 \<and>
        - 40 \<le> l_y b \<and> l_y b \<le> real_of_int (height g) + 40 \<and> 0 < dt \<and> dt \<le> 1 / 60 \<and>
        0 \<le> width g \<and> first_match (laser_update dt b) (enemies gc) = None \<longrightarrow>
        laser_update dt b \<in> set (bullets g'))"
proof (rule update_stages [of R dt mdx mdy sh bo sd g])
  fix es bs n g7
  assume g7: "g7 = (before_enemies R dt mdx mdy sh bo sd g)
      \<lparr>enemies := es, ebullets := ebullets (before_enemies R dt mdx mdy sh bo sd g) @ bs, rnd_n := n\<rparr>"
    and f: "fired_now R dt mdx mdy sh bo sd g = bs"
    and c: "upto_cull R dt mdx mdy sh bo sd g = Inr (stage_cull g7)"
    and u: "update R dt mdx mdy sh bo sd g =
      Inr (stage_shards dt (stage_ebullets (stage_deaths R (stage_hits (stage_cull g7)))))"
  let ?gc = "stage_cull g7"
  let ?g' = "stage_shards dt (stage_ebullets (stage_deaths R (stage_hits ?gc)))"
  let ?w = "width g" and ?h = "height g"
  let ?in = "bullets (stage_shoot dt sh (stage_move dt mdx mdy (stage_energy dt bo sd g)))"
  have bc: "bullets ?gc = filter (keep_bullet ?w ?h) (map (laser_update dt) ?in)"
    by (simp add: stage_cull_fields g7 before_enemies_bullets)
  have b': "bullets ?g' = filter (\<lambda>b. first_match b (enemies ?gc) = None) (bullets ?gc)"
    unfolding first_match_None
    by (simp add: stage_shards_fields stage_ebullets_fields stage_deaths_fields stage_hits_fields)
  have old: "set (bullets g) \<subseteq> set ?in"
    by (simp add: stage_shoot_bullets stage_move_fields stage_energy_fields)
  have 1: "list_all (keep_bullet ?w ?h) (bullets ?g')"
    unfolding b' bc by (simp add: list_all_iff)
  have 2: "ebullets ?gc =
      filter (keep_ebullet ?w ?h) (map (laser_update dt) (ebullets g)) @ fired_now R dt mdx mdy sh bo sd g"
    by (simp add: stage_cull_fields g7 before_enemies_fields f)
  have e': "ebullets ?g' = filter (\<lambda>b. \<not> overlaps_player (stage_deaths R (stage_hits ?gc)) b) (ebullets ?gc)"
    by (simp add: stage_shards_fields stage_ebullets_fields stage_deaths_fields stage_hits_fields)
  have 3: "\<forall>b\<in>set (ebullets ?g').
      b \<in> set (fired_now R dt mdx mdy sh bo sd g) \<or> keep_ebullet ?w ?h b"
    unfolding e' 2 by auto
  have 4: "\<forall>b\<in>set (bullets g).
      l_x b = real_of_int ?w + 100 \<and> 0 \<le> l_vx b \<and> 0 < dt \<longrightarrow>
      laser_update dt b \<notin> set (bullets ?g')"
  proof (intro ballI impI)
    fix b :: laser
    assume "l_x b = real_of_int ?w + 100 \<and> 0 \<le> l_vx b \<and> 0 < dt"
    then have "\<not> keep_bullet ?w ?h (laser_update dt b)"
      using culled_far_right [of b ?w dt ?h] by simp
    then show "laser_update dt b \<notin> set (bullets ?g')"
      using 1 by (auto simp: list_all_iff)
  qed
  have 5: "\<forall>b\<in>set (bullets g).
      l_x b = real_of_int ?w + 50 \<and> l_vx b = 520 \<and> l_vy b = 0 \<and>
      - 40 \<le> l_y b \<and> l_y b \<le> real_of_int ?h + 40 \<and> 0 < dt \<and> dt \<le> 1 / 60 \<and>
      0 \<le> ?w \<and> first_match (laser_update dt b) (enemies ?gc) = None \<longrightarrow>
      laser_update dt b \<in> set (bullets ?g')"
  proof (intro ballI impI)
    fix b :: laser
    assume b: "b \<in> set (bullets g)"
      and a: "l_x b = real_of_int ?w + 50 \<and> l_vx b = 520 \<and> l_vy b = 0 \<and>
        - 40 \<le> l_y b \<and> l_y b \<le> real_of_int ?h + 40 \<and> 0 < dt \<and> dt \<le> 1 / 60 \<and>
        0 \<le> ?w \<and> first_match (laser_update dt b) (enemies ?gc) = None"
    from a have "keep_bullet ?w ?h (laser_update dt b)"
      using kept_near_right [of b ?w ?h dt] by simp
    moreover from b old have "laser_update dt b \<in> set (map (laser_update dt) ?in)"
      by auto
    ultimately have "laser_update dt b \<in> set (bullets ?gc)"
      unfolding bc by simp
    with a show "laser_update dt b \<in> set (bullets ?g')"
      unfolding b' by simp
  qed
  show ?thesis
    by (rule exI [of _ ?gc], rule exI [of _ ?g']) (intro conjI c u 1 2 3 4 5)
qed

theorem projectile_culling_amended_witness:
  "\<exists>gc g'.
     upto_cull low_src (1 / 60) 0 0 False False False g_edge = Inr gc \<and>
     update low_src (1 / 60) 0 0 False False False g_edge = Inr g' \<and>
     bullets g_edge = [Laser 900 300 520 0 YELLOW True, Laser 850 300 520 0 YELLOW True] \<and>
     width g_edge = 800 \<and> height g_edge = 600 \<and>
     first_match (laser_update (1 / 60) (Laser 850 300 520 0 YELLOW True)) (enemies gc) = None \<and>
     laser_update (1 / 60) (Laser 900 300 520 0 YELLOW True) \<notin> set (bullets g') \<and>
     laser_update (1 / 60) (Laser 850 300 520 0 YELLOW True) \<in> set (bullets g') \<and>
     list_all (keep_bullet 800 600) (bullets g') \<and>
     map l_x (ebullets gc) = [1186 / 3, - 88] \<and>
     map l_x (fired_now low_src (1 / 60) 0 0 False False False g_edge) = [- 88]"
proof -
  from projectile_culling_amended [of low_src "1 / 60" 0 0 False False False g_edge]
  obtain gc g' where
    c: "upto_cull low_src (1 / 60) 0 0 False False False g_edge = Inr gc" and
    u: "update low_src (1 / 60) 0 0 False False False g_edge = Inr g'" and
    k: "list_all (keep_bullet (width g_edge) (height g_edge)) (bullets g')" and
    e: "ebullets gc =
        filter (keep_ebullet (width g_edge) (height g_edge)) (map (laser_update (1 / 60)) (ebullets g_edge))
        @ fired_now low_src (1 / 60) 0 0 False False False g_edge" and
    far: "\<forall>b\<in>set (bullets g_edge).
        l_x b = real_of_int (width g_edge) + 100 \<and> 0 \<le> l_vx b \<and> 0 < (1 / 60 :: real) \<longrightarrow>
        laser_update (1 / 60) b \<notin> set (bullets g')" and
    near: "\<forall>b\<in>set (bullets g_edge).
        l_x b = real_of_int (width g_edge) + 50 \<and> l_vx b = 520 \<and> l_vy b = 0 \<and>
        - 40 \<le> l_y b \<and> l_y b \<le> real_of_int (height g_edge) + 40 \<and> 0 < (1 / 60 :: real) \<and>
        (1 / 60 :: real) \<le> 1 / 60 \<and> 0 \<le> width g_edge \<and>
        first_match (laser_update (1 / 60) b) (enemies gc) = None \<longrightarrow>
        laser_update (1 / 60) b \<in> set (bullets g')"
    by blast
  have ge: "bullets g_edge = [Laser 900 300 520 0 YELLOW True, Laser 850 300 520 0 YELLOW True]"
    "width g_edge = 800" "height g_edge = 600"
    by (simp_all add: g_edge_def)
  have gc: "enemies gc = [(Enemy Red (- 72) 300 (- 120) 0 4 (no_data\<lparr>d_shoot_cd := Some 1\<rparr>))\<lparr>e_t := 1 / 60\<rparr>]"
    "map l_x (ebullets gc) = [1186 / 3, - 88]"
    using c by (auto simp: stage_defs geom_defs enemy_defs g_edge_def hypot_or_1_def hypot_x_0 fdiv_def)
  have fm: "first_match (laser_update (1 / 60) (Laser 850 300 520 0 YELLOW True)) (enemies gc) = None"
    by (simp add: gc geom_defs enemy_defs)
  have 1: "laser_update (1 / 60) (Laser 900 300 520 0 YELLOW True) \<notin> set (bullets g')"
    using far by (simp add: ge Laser_def)
  have 2: "laser_update (1 / 60) (Laser 850 300 520 0 YELLOW True) \<in> set (bullets g')"
    using near fm by (simp add: ge Laser_def)
  have 3: "list_all (keep_bullet 800 600) (bullets g')"
    using k by (simp add: ge)
  have "map l_x (filter (keep_ebullet (width g_edge) (height g_edge))
      (map (laser_update (1 / 60)) (ebullets g_edge))) = [1186 / 3]"
    by (simp add: g_edge_def geom_defs)
  with gc(2) have 4: "map l_x (fired_now low_src (1 / 60) 0 0 False False False g_edge) = [- 88]"
    unfolding e by simp
  show ?thesis
    by (rule exI [of _ gc], rule exI [of _ g']) (intro conjI c u ge fm 1 2 3 gc(2) 4)
qed

text \<open>
  Claim C6 as stated fails twice. In \<open>g_edge\<close> the red enemy moves to \<open>x = -72\<close>, is not
  culled yet, and fires from \<open>x - 16 = -88\<close>: the projectile is in the collection after the
  call, left of \<open>-80\<close>. In \<open>g_far\<close> the friendly projectile at \<open>x = width + 50\<close> moves to
  \<open>858.67\<close>, within 24 of the asteroid at \<open>838\<close>, and is consumed by the hit.
\<close>

theorem projectile_culling_counterexample:
  "(\<exists>g'. update low_src (1 / 60) 0 0 False False False g_edge = Inr g' \<and>
      map l_x (ebullets g') = [1186 / 3, - 88] \<and>
      \<not> list_all (keep_ebullet (width g') (height g')) (ebullets g')) \<and>
   (\<exists>g'. update low_src (1 / 60) 0 0 False False False g_far = Inr g' \<and>
      width g_far = 800 \<and> bullets g_far = [Laser (800 + 50) 300 520 0 YELLOW True] \<and>
      bullets g' = [])"
proof -
  have "update low_src (1 / 60) 0 0 False False False g_edge =
      Inr (g_edge\<lparr>bullets := [Laser (2576 / 3) 300 520 0 YELLOW True],
                    ebullets := [Laser (1186 / 3) 300 (- 280) 0 RED False,
                                 Laser (- 88) 300 280 0 RED False],
                    enemies := [(Enemy Red (- 72) 300 (- 120) 0 4
                                   (no_data\<lparr>d_shoot_cd := Some 1\<rparr>))\<lparr>e_t := 1 / 60\<rparr>],
                    spawn_t := 59 / 60, rnd_n := 1\<rparr>)"
    by (simp add: update_def stage_defs geom_defs enemy_defs g_edge_def hypot_or_1_def
        hypot_x_0 fdiv_def)
  moreover have "update low_src (1 / 60) 0 0 False False False g_far =
      Inr (g_far\<lparr>bullets := [],
                   enemies := [(Enemy Asteroid 838 300 (- 120) 0 2
                                  (no_data\<lparr>d_r := Some 20\<rparr>))\<lparr>e_t := 1 / 60\<rparr>],
                   spawn_t := 59 / 60\<rparr>)"
    by (simp add: update_def stage_defs geom_defs enemy_defs g_far_def hypot_or_1_def
        hypot_x_0 fdiv_def)
  ultimately show ?thesis
    by (simp add: g_edge_def g_far_def geom_defs)
qed

end
